theory Spec2Isabelle
  imports Main "HOL-Library.Word"
begin

section \<open>Data model\<close>

text \<open>
  The repository is C glue code over an external sockets wrapper library. The embedding
  follows \<^verbatim>\<open>source/transport/using_plaintext_udp.c\<close> and
  \<^verbatim>\<open>projects/hl7802_udp_echo_demo/echoTask.c\<close>.

  Pointers that the code compares with NULL are options (\<open>None\<close> is NULL, \<open>Some v\<close>
  points to \<open>v\<close>); a function that writes through a pointer returns the updated value.
  The return codes of the library (\<^verbatim>\<open>int32_t\<close>, \<^verbatim>\<open>BaseType_t\<close>) are only
  compared, never computed with, and are of type \<open>int\<close>.
\<close>

type_synonym uint8_t = "8 word"
type_synonym uint16_t = "16 word"
type_synonym uint32_t = "32 word"

text \<open>
  A socket handle (\<^verbatim>\<open>Socket_t\<close>, a pointer in the library) is an opaque word; the
  code only stores it, passes it on and compares it with the library's sentinel.
\<close>

type_synonym Socket_t = "32 word"

datatype PlaintextTransportStatus_t =
    PLAINTEXT_TRANSPORT_SUCCESS
  | PLAINTEXT_TRANSPORT_INVALID_PARAMETER
  | PLAINTEXT_TRANSPORT_CONNECT_FAILURE

record PlaintextTransportParams_t =
  socket :: Socket_t

record NetworkContext =
  pParams :: "PlaintextTransportParams_t option"

subsection \<open>The sockets wrapper library\<close>

text \<open>
  The library (\<^verbatim>\<open>sockets_wrapper.h\<close>) is not part of the sources: it is a parameter of
  every function that calls it. Its four entry points are functions on a state \<open>'e\<close> of
  the library and the network, about which nothing is assumed. The sentinel
  \<^verbatim>\<open>SOCKETS_INVALID_SOCKET\<close> comes with the library too.

  \<^item> \<open>Sockets_Udp_Connect sock host port rto sto e\<close> is given the socket stored so far
    and returns the status, the socket it stores through its first argument, and the
    new state.
  \<^item> \<open>Sockets_Recv sock buf n e\<close> returns the status and the new contents of the buffer.
  \<^item> \<open>Sockets_Send sock buf n e\<close> returns the status; its buffer is \<^verbatim>\<open>const\<close>.

  Of the program's memory, the library writes what it is given a pointer to write: the
  socket on a connect and the buffer on a receive.
\<close>

record 'e SocketsWrapper =
  SOCKETS_INVALID_SOCKET :: Socket_t
  Sockets_Udp_Connect ::
    "Socket_t \<Rightarrow> string \<Rightarrow> uint16_t \<Rightarrow> uint32_t \<Rightarrow> uint32_t \<Rightarrow> 'e \<Rightarrow> (int \<times> Socket_t) \<times> 'e"
  Sockets_Disconnect :: "Socket_t \<Rightarrow> 'e \<Rightarrow> 'e"
  Sockets_Recv :: "Socket_t \<Rightarrow> uint8_t list \<Rightarrow> nat \<Rightarrow> 'e \<Rightarrow> (int \<times> uint8_t list) \<times> 'e"
  Sockets_Send :: "Socket_t \<Rightarrow> uint8_t list \<Rightarrow> nat \<Rightarrow> 'e \<Rightarrow> int \<times> 'e"

text \<open>
  Every invocation of the library is recorded, with its arguments and what it returned:
  the socket before, host, port, the two timeouts, status and socket after for a connect;
  the socket for a disconnect; the socket, the buffer on entry, the length, the status
  and the buffer on return for a receive; the socket, the buffer, the length and the
  status for a send.
\<close>

datatype SocketsCall =
    Call_Udp_Connect Socket_t string uint16_t uint32_t uint32_t int Socket_t
  | Call_Disconnect Socket_t
  | Call_Recv Socket_t "uint8_t list" nat int "uint8_t list"
  | Call_Send Socket_t "uint8_t list" nat int

record 'e World =
  libState :: 'e
  callLog :: "SocketsCall list"

text \<open>
  A C array keeps its size: what the library leaves in a buffer replaces the buffer's
  bytes from index 0 and is cut at the array's end.
\<close>

definition store_bytes :: "uint8_t list \<Rightarrow> uint8_t list \<Rightarrow> uint8_t list" where
  "store_bytes new buf = take (length buf) new @ drop (length new) buf"

definition call_Sockets_Udp_Connect ::
  "'e SocketsWrapper \<Rightarrow> Socket_t \<Rightarrow> string \<Rightarrow> uint16_t \<Rightarrow> uint32_t \<Rightarrow> uint32_t \<Rightarrow> 'e World
    \<Rightarrow> (int \<times> Socket_t) \<times> 'e World" where
  "call_Sockets_Udp_Connect lib sock host port rto sto w =
     (case Sockets_Udp_Connect lib sock host port rto sto (libState w) of
        ((socketStatus, sock'), e') \<Rightarrow>
          ((socketStatus, sock'),
           \<lparr>libState = e',
            callLog = callLog w @ [Call_Udp_Connect sock host port rto sto socketStatus sock']\<rparr>))"

definition call_Sockets_Disconnect :: "'e SocketsWrapper \<Rightarrow> Socket_t \<Rightarrow> 'e World \<Rightarrow> 'e World" where
  "call_Sockets_Disconnect lib sock w =
     \<lparr>libState = Sockets_Disconnect lib sock (libState w),
      callLog = callLog w @ [Call_Disconnect sock]\<rparr>"

definition call_Sockets_Recv ::
  "'e SocketsWrapper \<Rightarrow> Socket_t \<Rightarrow> uint8_t list \<Rightarrow> nat \<Rightarrow> 'e World
    \<Rightarrow> (int \<times> uint8_t list) \<times> 'e World" where
  "call_Sockets_Recv lib sock buf n w =
     (case Sockets_Recv lib sock buf n (libState w) of
        ((socketStatus, new), e') \<Rightarrow>
          ((socketStatus, store_bytes new buf),
           \<lparr>libState = e',
            callLog = callLog w @ [Call_Recv sock buf n socketStatus (store_bytes new buf)]\<rparr>))"

definition call_Sockets_Send ::
  "'e SocketsWrapper \<Rightarrow> Socket_t \<Rightarrow> uint8_t list \<Rightarrow> nat \<Rightarrow> 'e World \<Rightarrow> int \<times> 'e World" where
  "call_Sockets_Send lib sock buf n w =
     (case Sockets_Send lib sock buf n (libState w) of
        (socketStatus, e') \<Rightarrow>
          (socketStatus,
           \<lparr>libState = e', callLog = callLog w @ [Call_Send sock buf n socketStatus]\<rparr>))"

section \<open>The transport adapter (using\_plaintext\_udp.c)\<close>

text \<open>
  \<^verbatim>\<open>Plaintext_FreeRTOS_UDP_Connect\<close> returns its status and the network context as the
  call leaves it: the library stores the socket through
  \<^verbatim>\<open>&( pPlaintextTransportParams->socket )\<close>.
\<close>

definition Plaintext_FreeRTOS_UDP_Connect ::
  "'e SocketsWrapper \<Rightarrow> NetworkContext option \<Rightarrow> string option \<Rightarrow> uint16_t \<Rightarrow> uint32_t \<Rightarrow> uint32_t
    \<Rightarrow> 'e World \<Rightarrow> (PlaintextTransportStatus_t \<times> NetworkContext option) \<times> 'e World" where
  "Plaintext_FreeRTOS_UDP_Connect lib pNetworkContext pHostName port receiveTimeoutMs sendTimeoutMs w =
     (case pNetworkContext of
        None \<Rightarrow> ((PLAINTEXT_TRANSPORT_INVALID_PARAMETER, pNetworkContext), w)
      | Some ctx \<Rightarrow>
          (case pParams ctx of
             None \<Rightarrow> ((PLAINTEXT_TRANSPORT_INVALID_PARAMETER, pNetworkContext), w)
           | Some pPlaintextTransportParams \<Rightarrow>
               (case pHostName of
                  None \<Rightarrow> ((PLAINTEXT_TRANSPORT_INVALID_PARAMETER, pNetworkContext), w)
                | Some host \<Rightarrow>
                    (case call_Sockets_Udp_Connect lib (socket pPlaintextTransportParams) host port
                            receiveTimeoutMs sendTimeoutMs w of
                       ((socketStatus, sock'), w') \<Rightarrow>
                         ((if socketStatus \<noteq> 0 then PLAINTEXT_TRANSPORT_CONNECT_FAILURE
                           else PLAINTEXT_TRANSPORT_SUCCESS,
                           Some (ctx\<lparr>pParams := Some (pPlaintextTransportParams\<lparr>socket := sock'\<rparr>)\<rparr>)),
                          w')))))"

definition Plaintext_FreeRTOS_UDP_Disconnect ::
  "'e SocketsWrapper \<Rightarrow> NetworkContext option \<Rightarrow> 'e World \<Rightarrow> PlaintextTransportStatus_t \<times> 'e World" where
  "Plaintext_FreeRTOS_UDP_Disconnect lib pNetworkContext w =
     (case pNetworkContext of
        None \<Rightarrow> (PLAINTEXT_TRANSPORT_INVALID_PARAMETER, w)
      | Some ctx \<Rightarrow>
          (case pParams ctx of
             None \<Rightarrow> (PLAINTEXT_TRANSPORT_INVALID_PARAMETER, w)
           | Some pPlaintextTransportParams \<Rightarrow>
               if socket pPlaintextTransportParams = SOCKETS_INVALID_SOCKET lib
               then (PLAINTEXT_TRANSPORT_INVALID_PARAMETER, w)
               else (PLAINTEXT_TRANSPORT_SUCCESS,
                     call_Sockets_Disconnect lib (socket pPlaintextTransportParams) w)))"

text \<open>
  \<^verbatim>\<open>Plaintext_FreeRTOS_recvFrom\<close> returns an \<^verbatim>\<open>int32_t\<close> and the buffer as the call
  leaves it; \<^verbatim>\<open>Plaintext_FreeRTOS_sendTo\<close> returns an \<^verbatim>\<open>int32_t\<close>.
\<close>

definition Plaintext_FreeRTOS_recvFrom ::
  "'e SocketsWrapper \<Rightarrow> NetworkContext option \<Rightarrow> uint8_t list option \<Rightarrow> nat \<Rightarrow> 'e World
    \<Rightarrow> (int \<times> uint8_t list option) \<times> 'e World" where
  "Plaintext_FreeRTOS_recvFrom lib pNetworkContext pBuffer bytesToRecv w =
     (case pNetworkContext of
        None \<Rightarrow> ((- 1, pBuffer), w)
      | Some ctx \<Rightarrow>
          (case pParams ctx of
             None \<Rightarrow> ((- 1, pBuffer), w)
           | Some pPlaintextTransportParams \<Rightarrow>
               (case pBuffer of
                  None \<Rightarrow> ((- 1, pBuffer), w)
                | Some buf \<Rightarrow>
                    if bytesToRecv = 0 then ((- 1, pBuffer), w)
                    else (case call_Sockets_Recv lib (socket pPlaintextTransportParams) buf
                                 bytesToRecv w of
                            ((socketStatus, buf'), w') \<Rightarrow> ((socketStatus, Some buf'), w')))))"

definition Plaintext_FreeRTOS_sendTo ::
  "'e SocketsWrapper \<Rightarrow> NetworkContext option \<Rightarrow> uint8_t list option \<Rightarrow> nat \<Rightarrow> 'e World
    \<Rightarrow> int \<times> 'e World" where
  "Plaintext_FreeRTOS_sendTo lib pNetworkContext pBuffer bytesToSend w =
     (case pNetworkContext of
        None \<Rightarrow> (- 1, w)
      | Some ctx \<Rightarrow>
          (case pParams ctx of
             None \<Rightarrow> (- 1, w)
           | Some pPlaintextTransportParams \<Rightarrow>
               (case pBuffer of
                  None \<Rightarrow> (- 1, w)
                | Some buf \<Rightarrow>
                    if bytesToSend = 0 then (- 1, w)
                    else call_Sockets_Send lib (socket pPlaintextTransportParams) buf bytesToSend w)))"

section \<open>The echo demo (echoTask.c)\<close>

definition ECHO_SERVER_ENDPOINT :: string where
  "ECHO_SERVER_ENDPOINT = ''PLACE_HOLDER''"

definition ECHO_SERVER_PORT :: uint16_t where
  "ECHO_SERVER_PORT = 9000"

definition ECHO_SEND_RECV_TIMEOUT_MS :: uint32_t where
  "ECHO_SEND_RECV_TIMEOUT_MS = 5000"

definition ECHO_MAX_RETRY_COUNT :: nat where
  "ECHO_MAX_RETRY_COUNT = 10"

text \<open>
  \<^verbatim>\<open>ECHO_BUFFER_MAX_SIZE\<close> is \<^verbatim>\<open>CELLULAR_MAX_SEND_DATA_LEN\<close>, a macro of the cellular
  library's configuration, which is not part of the sources: it is the parameter
  \<open>ECHO_BUFFER_MAX_SIZE\<close> of the functions below. The two arrays of
  \<^verbatim>\<open>xEchoTestBuffer\<close> have that many elements; \<^verbatim>\<open>sizeof\<close> of an array is the length
  of its list.
\<close>

record echoTestBuffer_t =
  sendBuf :: "uint8_t list"
  recvBuf :: "uint8_t list"

text \<open>The state of the program: the library with the record of its calls, and the global.\<close>

record 'e EchoState =
  world :: "'e World"
  xEchoTestBuffer :: echoTestBuffer_t

text \<open>
  A function with a loop that may not end takes a bound on the receive attempts of one
  call of \<^verbatim>\<open>prvRecvPackets\<close>. It has \<open>Returned\<close> with its result, or it is still
  \<open>Running\<close> when the bound is reached; both carry the state reached.
\<close>

datatype ('r, 's) outcome = Returned 'r 's | Running 's

definition prvTransportNetworkConnect ::
  "'e SocketsWrapper \<Rightarrow> NetworkContext option \<Rightarrow> 'e World \<Rightarrow> (bool \<times> NetworkContext option) \<times> 'e World" where
  "prvTransportNetworkConnect lib pNetworkContext w =
     (case Plaintext_FreeRTOS_UDP_Connect lib pNetworkContext (Some ECHO_SERVER_ENDPOINT)
             ECHO_SERVER_PORT ECHO_SEND_RECV_TIMEOUT_MS ECHO_SEND_RECV_TIMEOUT_MS w of
        ((xPlaintextStatus, ctx'), w') \<Rightarrow>
          ((xPlaintextStatus = PLAINTEXT_TRANSPORT_SUCCESS, ctx'), w'))"

definition prvTransportNetworkDisconnect ::
  "'e SocketsWrapper \<Rightarrow> NetworkContext option \<Rightarrow> 'e World \<Rightarrow> 'e World" where
  "prvTransportNetworkDisconnect lib pNetworkContext w =
     snd (Plaintext_FreeRTOS_UDP_Disconnect lib pNetworkContext w)"

text \<open>
  \<^verbatim>\<open>prvInitializeTestData\<close>: the counter \<open>i\<close> is a \<^verbatim>\<open>uint32_t\<close> and wraps around, the
  value stored is its low byte. The result is \<open>None\<close> where C gives none: a write
  beyond the end of the array, or a loop that does not end.
\<close>

partial_function (option) prvInitializeTestData_for ::
  "uint32_t \<Rightarrow> uint8_t list \<Rightarrow> nat \<Rightarrow> uint8_t list option" where
  "prvInitializeTestData_for i pTransportTestBuffer testSize =
     (if unat i < testSize then
        (if unat i < length pTransportTestBuffer
         then prvInitializeTestData_for (i + 1)
                (pTransportTestBuffer[unat i := ucast i]) testSize
         else None)
      else Some pTransportTestBuffer)"

declare prvInitializeTestData_for.simps [code]

definition prvInitializeTestData :: "uint8_t list \<Rightarrow> nat \<Rightarrow> uint8_t list option" where
  "prvInitializeTestData pTransportTestBuffer testSize =
     prvInitializeTestData_for 0 pTransportTestBuffer testSize"

text \<open>
  \<^verbatim>\<open>prvSendPackets\<close> compares the \<^verbatim>\<open>int32_t\<close> returned with the \<^verbatim>\<open>size_t\<close> size. The
  sizes of the demo are between 10 and \<^verbatim>\<open>ECHO_BUFFER_MAX_SIZE\<close>, where the comparison
  is the one of the two numbers (a negative status converts to a number beyond every
  array size). The \<^verbatim>\<open>int32_t size\<close> of \<^verbatim>\<open>prvRecvPackets\<close> and of the loop is a
  natural number for the same reason.
\<close>

definition prvSendPackets ::
  "'e SocketsWrapper \<Rightarrow> NetworkContext option \<Rightarrow> uint8_t list option \<Rightarrow> nat \<Rightarrow> 'e World
    \<Rightarrow> bool \<times> 'e World" where
  "prvSendPackets lib pNetworkContext pBuf size' w =
     (case Plaintext_FreeRTOS_sendTo lib pNetworkContext pBuf size' w of
        (sentByte, w') \<Rightarrow> (sentByte = int size', w'))"

text \<open>The do-while loop of \<^verbatim>\<open>prvRecvPackets\<close>; the first argument bounds its attempts.\<close>

fun prvRecvPackets ::
  "nat \<Rightarrow> 'e SocketsWrapper \<Rightarrow> NetworkContext option \<Rightarrow> uint8_t list option \<Rightarrow> nat \<Rightarrow> 'e World
    \<Rightarrow> (bool, uint8_t list option \<times> 'e World) outcome" where
  "prvRecvPackets 0 lib pNetworkContext pBuf size' w = Running (pBuf, w)"
| "prvRecvPackets (Suc fuel) lib pNetworkContext pBuf size' w =
     (case Plaintext_FreeRTOS_recvFrom lib pNetworkContext pBuf size' w of
        ((recvByte, pBuf'), w') \<Rightarrow>
          if recvByte = int size' then Returned True (pBuf', w')
          else if recvByte > 0 then prvRecvPackets fuel lib pNetworkContext pBuf' size' w'
          else Returned False (pBuf', w'))"

definition memset :: "uint8_t list \<Rightarrow> uint8_t \<Rightarrow> nat \<Rightarrow> uint8_t list" where
  "memset buf c n = replicate n c @ drop n buf"

text \<open>\<^verbatim>\<open>memcmp(a, b, n) == 0\<close> on arrays of at least \<open>n\<close> bytes.\<close>

definition memcmp_equal :: "uint8_t list \<Rightarrow> uint8_t list \<Rightarrow> nat \<Rightarrow> bool" where
  "memcmp_equal a b n = (take n a = take n b)"

text \<open>What a callee left in the receive buffer, and where it left the library.\<close>

definition after_recv :: "'e EchoState \<Rightarrow> uint8_t list option \<Rightarrow> 'e World \<Rightarrow> 'e EchoState" where
  "after_recv s pBuf w =
     \<lparr>world = w,
      xEchoTestBuffer = (xEchoTestBuffer s)
        \<lparr>recvBuf := (case pBuf of None \<Rightarrow> recvBuf (xEchoTestBuffer s) | Some b \<Rightarrow> b)\<rparr>\<rparr>"

text \<open>\<^verbatim>\<open>memset(xEchoTestBuffer.recvBuf, 0, sizeof(xEchoTestBuffer.recvBuf))\<close>\<close>

definition clear_recvBuf :: "'e EchoState \<Rightarrow> 'e EchoState" where
  "clear_recvBuf s =
     s\<lparr>xEchoTestBuffer := (xEchoTestBuffer s)
        \<lparr>recvBuf := memset (recvBuf (xEchoTestBuffer s)) 0 (length (recvBuf (xEchoTestBuffer s)))\<rparr>\<rparr>"

text \<open>
  One pass through the body of the for loop of \<^verbatim>\<open>prvLoopSendAndReceive\<close>: it leaves
  the loop with the function's result (\<^verbatim>\<open>result = false; break\<close>), or goes on to the
  next pass with a packet size and a failure count.
\<close>

datatype LoopControl = LoopBreak bool | LoopNext nat uint16_t

definition prvLoopSendAndReceive_body ::
  "nat \<Rightarrow> 'e SocketsWrapper \<Rightarrow> NetworkContext option \<Rightarrow> nat \<Rightarrow> uint16_t \<Rightarrow> 'e EchoState
    \<Rightarrow> (LoopControl, 'e EchoState) outcome" where
  "prvLoopSendAndReceive_body fuel lib pNetworkContext size' failCount s =
     (case prvSendPackets lib pNetworkContext (Some (sendBuf (xEchoTestBuffer s))) size' (world s) of
        (sendResult, w1) \<Rightarrow>
          if \<not> sendResult then Returned (LoopBreak False) (s\<lparr>world := w1\<rparr>)
          else
            (case prvRecvPackets fuel lib pNetworkContext (Some (recvBuf (xEchoTestBuffer s))) size' w1 of
               Running (pBuf, w2) \<Rightarrow> Running (after_recv s pBuf w2)
             | Returned recvResult (pBuf, w2) \<Rightarrow>
                 if \<not> recvResult then
                   (if unat (failCount + 1) > ECHO_MAX_RETRY_COUNT
                    then Returned (LoopBreak False) (after_recv s pBuf w2)
                    else Returned (LoopNext size' (failCount + 1))
                           (clear_recvBuf (after_recv s pBuf w2)))
                 else if memcmp_equal (sendBuf (xEchoTestBuffer (after_recv s pBuf w2)))
                           (recvBuf (xEchoTestBuffer (after_recv s pBuf w2))) size'
                 then Returned (LoopNext (size' + 1) 0) (clear_recvBuf (after_recv s pBuf w2))
                 else Returned (LoopBreak False) (after_recv s pBuf w2)))"

text \<open>
  The for loop of \<^verbatim>\<open>prvLoopSendAndReceive\<close>. A pass that goes on either moves to the
  next size or counts one more failure below the limit, which is why the loop ends
  whenever its calls of \<^verbatim>\<open>prvRecvPackets\<close> do.
\<close>

lemma prvLoopSendAndReceive_body_next:
  "prvLoopSendAndReceive_body fuel lib ctx size' failCount s = Returned (LoopNext size'' failCount') s'
   \<Longrightarrow> (size'' = size' + 1 \<and> failCount' = 0)
       \<or> (size'' = size' \<and> failCount' = failCount + 1 \<and> unat failCount' \<le> ECHO_MAX_RETRY_COUNT)"
  by (auto simp: prvLoopSendAndReceive_body_def split: prod.splits if_splits outcome.splits)

lemma failCount_measure: "unat (fc + 1 :: 16 word) \<le> 10 \<Longrightarrow> unat (9 - fc) < unat (10 - fc)"
  apply unat_arith
  apply simp
  done

function prvLoopSendAndReceive_for ::
  "nat \<Rightarrow> 'e SocketsWrapper \<Rightarrow> nat \<Rightarrow> NetworkContext option \<Rightarrow> nat \<Rightarrow> uint16_t \<Rightarrow> 'e EchoState
    \<Rightarrow> (bool, 'e EchoState) outcome" where
  "prvLoopSendAndReceive_for fuel lib ECHO_BUFFER_MAX_SIZE pNetworkContext size' failCount s =
     (if size' \<le> ECHO_BUFFER_MAX_SIZE then
        (case prvLoopSendAndReceive_body fuel lib pNetworkContext size' failCount s of
           Running s' \<Rightarrow> Running s'
         | Returned (LoopBreak result) s' \<Rightarrow> Returned result s'
         | Returned (LoopNext size'' failCount') s' \<Rightarrow>
             prvLoopSendAndReceive_for fuel lib ECHO_BUFFER_MAX_SIZE pNetworkContext size'' failCount' s')
      else Returned True s)"
  by pat_completeness auto
termination
  by (relation "measures [\<lambda>(fuel, lib, m, ctx, sz, fc, s). m + 1 - sz,
                           \<lambda>(fuel, lib, m, ctx, sz, fc, s). unat (10 - fc)]")
     (auto dest!: prvLoopSendAndReceive_body_next simp: ECHO_MAX_RETRY_COUNT_def failCount_measure)

definition prvLoopSendAndReceive ::
  "nat \<Rightarrow> 'e SocketsWrapper \<Rightarrow> nat \<Rightarrow> NetworkContext option \<Rightarrow> 'e EchoState
    \<Rightarrow> (bool, 'e EchoState) outcome" where
  "prvLoopSendAndReceive fuel lib ECHO_BUFFER_MAX_SIZE pNetworkContext s =
     prvLoopSendAndReceive_for fuel lib ECHO_BUFFER_MAX_SIZE pNetworkContext 10 0 s"

text \<open>
  \<^verbatim>\<open>RunEchoTask\<close>, up to the deletion of the task. The result is the \<^verbatim>\<open>status\<close> that
  decides between the two final log lines. The network context and its parameter
  block start as \<^verbatim>\<open>{ 0 }\<close>.
\<close>

definition RunEchoTask ::
  "nat \<Rightarrow> 'e SocketsWrapper \<Rightarrow> nat \<Rightarrow> 'e EchoState \<Rightarrow> (bool, 'e EchoState) outcome option" where
  "RunEchoTask fuel lib ECHO_BUFFER_MAX_SIZE s =
     (case prvInitializeTestData (sendBuf (xEchoTestBuffer s))
             (length (sendBuf (xEchoTestBuffer s))) of
        None \<Rightarrow> None
      | Some sb \<Rightarrow>
          (case prvInitializeTestData (recvBuf (xEchoTestBuffer s))
                  (length (recvBuf (xEchoTestBuffer s))) of
             None \<Rightarrow> None
           | Some rb \<Rightarrow>
               (case prvTransportNetworkConnect lib (Some \<lparr>pParams = Some \<lparr>socket = 0\<rparr>\<rparr>) (world s) of
                  ((status, xNetworkContext), w1) \<Rightarrow>
                    Some
                      (if status then
                         (case prvLoopSendAndReceive fuel lib ECHO_BUFFER_MAX_SIZE xNetworkContext
                                 \<lparr>world = w1, xEchoTestBuffer = \<lparr>sendBuf = sb, recvBuf = rb\<rparr>\<rparr> of
                            Running s' \<Rightarrow> Running s'
                          | Returned status' s' \<Rightarrow>
                              Returned status'
                                (s'\<lparr>world := prvTransportNetworkDisconnect lib xNetworkContext (world s')\<rparr>))
                       else
                         Returned False
                           \<lparr>world = prvTransportNetworkDisconnect lib xNetworkContext w1,
                            xEchoTestBuffer = \<lparr>sendBuf = sb, recvBuf = rb\<rparr>\<rparr>))))"

section \<open>Libraries to run the code against\<close>

text \<open>
  An echo server behind a library that never fails: a send delivers the first \<open>n\<close>
  bytes of the buffer and returns \<open>n\<close>; a receive returns the datagram last sent, cut
  to the length asked for, and its length. The state is the datagram in flight.
\<close>

definition echoServer :: "uint8_t list SocketsWrapper" where
  "echoServer =
     \<lparr>SOCKETS_INVALID_SOCKET = - 1,
      Sockets_Udp_Connect = (\<lambda>sock host port rto sto e. ((0, 1), e)),
      Sockets_Disconnect = (\<lambda>sock e. e),
      Sockets_Recv = (\<lambda>sock buf n e. ((int (length (take n e)), take n e), [])),
      Sockets_Send = (\<lambda>sock buf n e. (int n, take n buf))\<rparr>"

text \<open>
  A network that loses data: sends succeed, and the \<open>k\<close>-th receive returns the status
  \<open>f k\<close> and leaves the buffer as it was. The state counts the receives.
\<close>

definition lossyServer :: "(nat \<Rightarrow> int) \<Rightarrow> nat SocketsWrapper" where
  "lossyServer f =
     \<lparr>SOCKETS_INVALID_SOCKET = - 1,
      Sockets_Udp_Connect = (\<lambda>sock host port rto sto k. ((0, 1), k)),
      Sockets_Disconnect = (\<lambda>sock k. k),
      Sockets_Recv = (\<lambda>sock buf n k. ((f k, []), Suc k)),
      Sockets_Send = (\<lambda>sock buf n k. (int n, k))\<rparr>"

text \<open>A connected network context, and the global with the test pattern in both arrays.\<close>

definition connectedContext :: "NetworkContext option" where
  "connectedContext = Some \<lparr>pParams = Some \<lparr>socket = 1\<rparr>\<rparr>"

definition testPattern :: "nat \<Rightarrow> uint8_t list" where
  "testPattern n = map of_nat [0..<n]"

section \<open>Reading the record of calls\<close>

text \<open>The state in which a run stands, returned or not.\<close>

fun outcome_state :: "('r, 's) outcome \<Rightarrow> 's" where
  "outcome_state (Returned r s) = s"
| "outcome_state (Running s) = s"

text \<open>A receive on socket \<open>sock\<close> that asked for \<open>n\<close> bytes.\<close>

fun is_recv_of :: "Socket_t \<Rightarrow> nat \<Rightarrow> SocketsCall \<Rightarrow> bool" where
  "is_recv_of sock n (Call_Recv sock' b n' rc b') = (sock' = sock \<and> n' = n)"
| "is_recv_of sock n ev = False"

text \<open>A receive that returned some bytes, but not as many as it asked for (or more).\<close>

fun is_partial_recv :: "SocketsCall \<Rightarrow> bool" where
  "is_partial_recv (Call_Recv sock b n rc b') = (rc > 0 \<and> rc \<noteq> int n)"
| "is_partial_recv ev = False"

text \<open>The result of a run that returned.\<close>

fun outcome_result :: "('r, 's) outcome \<Rightarrow> 'r option" where
  "outcome_result (Returned r s) = Some r"
| "outcome_result (Running s) = None"

text \<open>
  The receives of one call of \<^verbatim>\<open>prvRecvPackets\<close> for \<open>n\<close> bytes into the buffer \<open>rb\<close>:
  all on the socket and for \<open>n\<close> bytes, the first on \<open>rb\<close>, all but the last partial.
\<close>

definition recv_round :: "Socket_t \<Rightarrow> nat \<Rightarrow> uint8_t list \<Rightarrow> SocketsCall list \<Rightarrow> bool" where
  "recv_round sock n rb revs =
     (list_all (is_recv_of sock n) revs \<and> list_all is_partial_recv (butlast revs)
      \<and> (revs = [] \<or> (\<exists>rc b1. hd revs = Call_Recv sock rb n rc b1)))"

text \<open>
  The shape of what a run of the for loop adds to the record of calls, pass by pass,
  and the result it ends with (\<open>None\<close> while a call of \<^verbatim>\<open>prvRecvPackets\<close> has not
  returned). \<open>N\<close> is \<^verbatim>\<open>ECHO_BUFFER_MAX_SIZE\<close>, \<open>sb\<close> the send buffer; \<open>n\<close>, \<open>fc\<close> and \<open>rb\<close>
  are the size, the failure count and the receive buffer with which a pass starts.
  Lemma \<open>loop_trace_of_run\<close> below shows that every run has this shape; the properties
  of all runs are then proved on the shape.
\<close>

inductive loop_trace ::
  "nat \<Rightarrow> nat \<Rightarrow> Socket_t \<Rightarrow> uint8_t list \<Rightarrow> nat \<Rightarrow> uint16_t \<Rightarrow> uint8_t list
    \<Rightarrow> SocketsCall list \<Rightarrow> bool option \<Rightarrow> bool"
  for N :: nat and fuel :: nat and sock :: Socket_t and sb :: "uint8_t list" where
  finished:
    "\<not> n \<le> N \<Longrightarrow> loop_trace N fuel sock sb n fc rb [] (Some True)"
| send_failed:
    "n \<le> N \<Longrightarrow> rcS \<noteq> int n
     \<Longrightarrow> loop_trace N fuel sock sb n fc rb [Call_Send sock sb n rcS] (Some False)"
| still_receiving:
    "n \<le> N \<Longrightarrow> recv_round sock n rb revs \<Longrightarrow> list_all is_partial_recv revs
     \<Longrightarrow> length revs = fuel
     \<Longrightarrow> loop_trace N fuel sock sb n fc rb (Call_Send sock sb n (int n) # revs) None"
| mismatch:
    "n \<le> N \<Longrightarrow> recv_round sock n rb revs \<Longrightarrow> revs \<noteq> []
     \<Longrightarrow> last revs = Call_Recv sock b0 n (int n) b' \<Longrightarrow> take n sb \<noteq> take n b'
     \<Longrightarrow> loop_trace N fuel sock sb n fc rb (Call_Send sock sb n (int n) # revs) (Some False)"
| matched:
    "n \<le> N \<Longrightarrow> recv_round sock n rb revs \<Longrightarrow> revs \<noteq> []
     \<Longrightarrow> last revs = Call_Recv sock b0 n (int n) b' \<Longrightarrow> take n sb = take n b'
     \<Longrightarrow> loop_trace N fuel sock sb (n + 1) 0 (replicate (length rb) 0) evs res
     \<Longrightarrow> loop_trace N fuel sock sb n fc rb (Call_Send sock sb n (int n) # revs @ evs) res"
| given_up:
    "n \<le> N \<Longrightarrow> recv_round sock n rb revs \<Longrightarrow> revs \<noteq> []
     \<Longrightarrow> last revs = Call_Recv sock b0 n rc b' \<Longrightarrow> rc \<le> 0 \<Longrightarrow> rc \<noteq> int n
     \<Longrightarrow> unat (fc + 1) > ECHO_MAX_RETRY_COUNT
     \<Longrightarrow> loop_trace N fuel sock sb n fc rb (Call_Send sock sb n (int n) # revs) (Some False)"
| retried:
    "n \<le> N \<Longrightarrow> recv_round sock n rb revs \<Longrightarrow> revs \<noteq> []
     \<Longrightarrow> last revs = Call_Recv sock b0 n rc b' \<Longrightarrow> rc \<le> 0 \<Longrightarrow> rc \<noteq> int n
     \<Longrightarrow> \<not> unat (fc + 1) > ECHO_MAX_RETRY_COUNT
     \<Longrightarrow> loop_trace N fuel sock sb n (fc + 1) (replicate (length rb) 0) evs res
     \<Longrightarrow> loop_trace N fuel sock sb n fc rb (Call_Send sock sb n (int n) # revs @ evs) res"

text \<open>The calls that a run from state \<open>s\<close> to state \<open>s'\<close> added to the record.\<close>

definition new_calls :: "'e EchoState \<Rightarrow> 'e EchoState \<Rightarrow> SocketsCall list" where
  "new_calls s s' = drop (length (callLog (world s))) (callLog (world s'))"

text \<open>A send, if the call is one, is a send of the buffer contents \<open>pat\<close>.\<close>

fun sends_from :: "uint8_t list \<Rightarrow> SocketsCall \<Rightarrow> bool" where
  "sends_from pat (Call_Send sock b n rc) = (b = pat)"
| "sends_from pat ev = True"

text \<open>
  The program before the task starts: nothing recorded, and the global zeroed as C
  zeroes static storage, with arrays of \<open>n\<close> bytes.
\<close>

definition freshState :: "nat \<Rightarrow> 'e \<Rightarrow> 'e EchoState" where
  "freshState n e =
     \<lparr>world = \<lparr>libState = e, callLog = []\<rparr>,
      xEchoTestBuffer = \<lparr>sendBuf = replicate n 0, recvBuf = replicate n 0\<rparr>\<rparr>"

text \<open>A receive for \<open>k\<close> bytes that returned zero (nothing arrived in time) or an error.\<close>

fun is_recv_failure :: "nat \<Rightarrow> SocketsCall \<Rightarrow> bool" where
  "is_recv_failure k (Call_Recv sock b n rc b') = (n = k \<and> rc \<le> 0)"
| "is_recv_failure k ev = False"

text \<open>
  The call went as on a network without loss: a send took all \<open>n\<close> bytes, a receive
  returned \<open>n\<close> bytes and left the first \<open>n\<close> bytes of \<open>pat\<close> in the buffer.
\<close>

fun echoed :: "uint8_t list \<Rightarrow> SocketsCall \<Rightarrow> bool" where
  "echoed pat (Call_Send sock b n rc) = (rc = int n)"
| "echoed pat (Call_Recv sock b n rc b') = (rc = int n \<and> take n b' = take n pat)"
| "echoed pat ev = True"

text \<open>The sizes of the packets sent, in the order of the sends.\<close>

fun sent_size :: "SocketsCall \<Rightarrow> nat list" where
  "sent_size (Call_Send sock b n rc) = [n]"
| "sent_size ev = []"

definition sent_sizes :: "SocketsCall list \<Rightarrow> nat list" where
  "sent_sizes evs = concat (map sent_size evs)"

text \<open>The program as the task leaves it before the loop, with arrays of \<open>n\<close> bytes.\<close>

definition patternState :: "nat \<Rightarrow> 'e \<Rightarrow> 'e EchoState" where
  "patternState n e =
     \<lparr>world = \<lparr>libState = e, callLog = []\<rparr>,
      xEchoTestBuffer = \<lparr>sendBuf = testPattern n, recvBuf = testPattern n\<rparr>\<rparr>"

text \<open>
  The buffers handed to the first receive attempt of each pass: the buffer on entry of
  every receive that comes directly after a send.
\<close>

fun first_attempts :: "SocketsCall list \<Rightarrow> uint8_t list list" where
  "first_attempts (Call_Send sock sb n rc # Call_Recv sock' b n' rc' b' # evs) = b # first_attempts evs"
| "first_attempts (ev # evs) = first_attempts evs"
| "first_attempts [] = []"

text \<open>
  A network that delivers one byte at a time: every receive stores the byte 7 at the
  start of the buffer and returns 1.
\<close>

definition dribblingServer :: "nat SocketsWrapper" where
  "dribblingServer =
     \<lparr>SOCKETS_INVALID_SOCKET = - 1,
      Sockets_Udp_Connect = (\<lambda>sock host port rto sto k. ((0, 1), k)),
      Sockets_Disconnect = (\<lambda>sock k. k),
      Sockets_Recv = (\<lambda>sock buf n k. ((1, [7]), Suc k)),
      Sockets_Send = (\<lambda>sock buf n k. (int n, k))\<rparr>"

section \<open>Properties of the transport adapter\<close>

text \<open>
  C4. \<^verbatim>\<open>Plaintext_FreeRTOS_UDP_Connect\<close> returns the invalid-parameter status exactly
  when the network context, its parameter block or the host name is NULL (first
  conjunct). With all three present it returns the connect-failure status exactly when
  \<^verbatim>\<open>Sockets_Udp_Connect\<close> returns a non-zero code (second conjunct), and the success
  status exactly when that code is zero (third conjunct).
\<close>

theorem C4_connect_status:
  "(fst (fst (Plaintext_FreeRTOS_UDP_Connect lib pNetworkContext pHostName port rto sto w))
      = PLAINTEXT_TRANSPORT_INVALID_PARAMETER)
    = (pNetworkContext = None \<or> pNetworkContext = Some \<lparr>pParams = None\<rparr> \<or> pHostName = None)
   \<and>
   (fst (fst (Plaintext_FreeRTOS_UDP_Connect lib (Some \<lparr>pParams = Some prm\<rparr>) (Some host) port rto sto w))
      = PLAINTEXT_TRANSPORT_CONNECT_FAILURE)
    = (fst (fst (Sockets_Udp_Connect lib (socket prm) host port rto sto (libState w))) \<noteq> 0)
   \<and>
   (fst (fst (Plaintext_FreeRTOS_UDP_Connect lib (Some \<lparr>pParams = Some prm\<rparr>) (Some host) port rto sto w))
      = PLAINTEXT_TRANSPORT_SUCCESS)
    = (fst (fst (Sockets_Udp_Connect lib (socket prm) host port rto sto (libState w))) = 0)"
proof (intro conjI)
  show "(fst (fst (Plaintext_FreeRTOS_UDP_Connect lib pNetworkContext pHostName port rto sto w))
          = PLAINTEXT_TRANSPORT_INVALID_PARAMETER)
        = (pNetworkContext = None \<or> pNetworkContext = Some \<lparr>pParams = None\<rparr> \<or> pHostName = None)"
    by (cases pNetworkContext; cases pHostName)
       (auto simp: Plaintext_FreeRTOS_UDP_Connect_def call_Sockets_Udp_Connect_def
             split: option.splits prod.splits)
next
  show "(fst (fst (Plaintext_FreeRTOS_UDP_Connect lib (Some \<lparr>pParams = Some prm\<rparr>) (Some host) port rto sto w))
          = PLAINTEXT_TRANSPORT_CONNECT_FAILURE)
        = (fst (fst (Sockets_Udp_Connect lib (socket prm) host port rto sto (libState w))) \<noteq> 0)"
    by (simp add: Plaintext_FreeRTOS_UDP_Connect_def call_Sockets_Udp_Connect_def
             split: prod.splits)
next
  show "(fst (fst (Plaintext_FreeRTOS_UDP_Connect lib (Some \<lparr>pParams = Some prm\<rparr>) (Some host) port rto sto w))
          = PLAINTEXT_TRANSPORT_SUCCESS)
        = (fst (fst (Sockets_Udp_Connect lib (socket prm) host port rto sto (libState w))) = 0)"
    by (simp add: Plaintext_FreeRTOS_UDP_Connect_def call_Sockets_Udp_Connect_def
             split: prod.splits)
qed

text \<open>
  C7. \<^verbatim>\<open>Plaintext_FreeRTOS_UDP_Disconnect\<close> returns the invalid-parameter status exactly
  when the network context is NULL, its parameter block is NULL, or the stored socket is
  the invalid-socket sentinel (first conjunct). With a parameter block present, the
  sentinel is the only case of that status; in the other case the call invokes
  \<^verbatim>\<open>Sockets_Disconnect\<close> on the stored socket, once, and returns the success status
  (second conjunct).
\<close>

theorem C7_disconnect_status:
  "(fst (Plaintext_FreeRTOS_UDP_Disconnect lib pNetworkContext w) = PLAINTEXT_TRANSPORT_INVALID_PARAMETER)
     = (pNetworkContext = None \<or> pNetworkContext = Some \<lparr>pParams = None\<rparr>
        \<or> (\<exists>prm. pNetworkContext = Some \<lparr>pParams = Some prm\<rparr>
                 \<and> socket prm = SOCKETS_INVALID_SOCKET lib))
   \<and>
   Plaintext_FreeRTOS_UDP_Disconnect lib (Some \<lparr>pParams = Some prm\<rparr>) w
     = (if socket prm = SOCKETS_INVALID_SOCKET lib
        then (PLAINTEXT_TRANSPORT_INVALID_PARAMETER, w)
        else (PLAINTEXT_TRANSPORT_SUCCESS,
              \<lparr>libState = Sockets_Disconnect lib (socket prm) (libState w),
               callLog = callLog w @ [Call_Disconnect (socket prm)]\<rparr>))"
proof (intro conjI)
  show "(fst (Plaintext_FreeRTOS_UDP_Disconnect lib pNetworkContext w) = PLAINTEXT_TRANSPORT_INVALID_PARAMETER)
     = (pNetworkContext = None \<or> pNetworkContext = Some \<lparr>pParams = None\<rparr>
        \<or> (\<exists>prm. pNetworkContext = Some \<lparr>pParams = Some prm\<rparr>
                 \<and> socket prm = SOCKETS_INVALID_SOCKET lib))"
  proof (cases pNetworkContext)
    case None
    then show ?thesis by (simp add: Plaintext_FreeRTOS_UDP_Disconnect_def)
  next
    case (Some ctx)
    show ?thesis
    proof (cases "pParams ctx")
      case None
      with Some show ?thesis by (simp add: Plaintext_FreeRTOS_UDP_Disconnect_def)
    next
      case (Some prm')
      then have "ctx = \<lparr>pParams = Some prm'\<rparr>" by (cases ctx) simp
      with \<open>pNetworkContext = Some ctx\<close> show ?thesis
        by (auto simp: Plaintext_FreeRTOS_UDP_Disconnect_def)
    qed
  qed
next
  show "Plaintext_FreeRTOS_UDP_Disconnect lib (Some \<lparr>pParams = Some prm\<rparr>) w
     = (if socket prm = SOCKETS_INVALID_SOCKET lib
        then (PLAINTEXT_TRANSPORT_INVALID_PARAMETER, w)
        else (PLAINTEXT_TRANSPORT_SUCCESS,
              \<lparr>libState = Sockets_Disconnect lib (socket prm) (libState w),
               callLog = callLog w @ [Call_Disconnect (socket prm)]\<rparr>))"
    by (simp add: Plaintext_FreeRTOS_UDP_Disconnect_def call_Sockets_Disconnect_def)
qed

text \<open>
  C9. When the validation of the parameters fails (NULL context, NULL parameter block,
  NULL host name or buffer, zero length), each of the four operations returns its error
  value (the invalid-parameter status, or \<open>-1\<close>) and leaves the library's state and
  the record of its calls as they were: the library is not invoked. The network context
  and the buffer are returned as they were given.
\<close>

theorem C9_validation_failure:
  "Plaintext_FreeRTOS_UDP_Connect lib None pHostName port rto sto w
     = ((PLAINTEXT_TRANSPORT_INVALID_PARAMETER, None), w)
   \<and> Plaintext_FreeRTOS_UDP_Connect lib (Some \<lparr>pParams = None\<rparr>) pHostName port rto sto w
     = ((PLAINTEXT_TRANSPORT_INVALID_PARAMETER, Some \<lparr>pParams = None\<rparr>), w)
   \<and> Plaintext_FreeRTOS_UDP_Connect lib pNetworkContext None port rto sto w
     = ((PLAINTEXT_TRANSPORT_INVALID_PARAMETER, pNetworkContext), w)
   \<and> Plaintext_FreeRTOS_UDP_Disconnect lib None w = (PLAINTEXT_TRANSPORT_INVALID_PARAMETER, w)
   \<and> Plaintext_FreeRTOS_UDP_Disconnect lib (Some \<lparr>pParams = None\<rparr>) w
     = (PLAINTEXT_TRANSPORT_INVALID_PARAMETER, w)
   \<and> Plaintext_FreeRTOS_sendTo lib None pBuffer n w = (- 1, w)
   \<and> Plaintext_FreeRTOS_sendTo lib (Some \<lparr>pParams = None\<rparr>) pBuffer n w = (- 1, w)
   \<and> Plaintext_FreeRTOS_sendTo lib pNetworkContext None n w = (- 1, w)
   \<and> Plaintext_FreeRTOS_sendTo lib pNetworkContext pBuffer 0 w = (- 1, w)
   \<and> Plaintext_FreeRTOS_recvFrom lib None pBuffer n w = ((- 1, pBuffer), w)
   \<and> Plaintext_FreeRTOS_recvFrom lib (Some \<lparr>pParams = None\<rparr>) pBuffer n w = ((- 1, pBuffer), w)
   \<and> Plaintext_FreeRTOS_recvFrom lib pNetworkContext None n w = ((- 1, None), w)
   \<and> Plaintext_FreeRTOS_recvFrom lib pNetworkContext pBuffer 0 w = ((- 1, pBuffer), w)"
  by (simp add: Plaintext_FreeRTOS_UDP_Connect_def Plaintext_FreeRTOS_UDP_Disconnect_def
        Plaintext_FreeRTOS_sendTo_def Plaintext_FreeRTOS_recvFrom_def split: option.splits)

text \<open>
  C3, as amended. \<^verbatim>\<open>Plaintext_FreeRTOS_sendTo\<close> and \<^verbatim>\<open>Plaintext_FreeRTOS_recvFrom\<close>
  return an \<^verbatim>\<open>int32_t\<close>, not a transport status: with valid parameters, the code that
  \<^verbatim>\<open>Sockets_Send\<close> or \<^verbatim>\<open>Sockets_Recv\<close> returned, unchanged; and \<open>-1\<close> when the
  context, its parameter block or the buffer is NULL or the length is zero.
\<close>

theorem C3_send_recv_return_code:
  "fst (Plaintext_FreeRTOS_sendTo lib (Some \<lparr>pParams = Some prm\<rparr>) (Some buf) (Suc n) w)
     = fst (Sockets_Send lib (socket prm) buf (Suc n) (libState w))
   \<and> fst (fst (Plaintext_FreeRTOS_recvFrom lib (Some \<lparr>pParams = Some prm\<rparr>) (Some buf) (Suc n) w))
     = fst (fst (Sockets_Recv lib (socket prm) buf (Suc n) (libState w)))
   \<and> fst (Plaintext_FreeRTOS_sendTo lib None pBuffer m w) = - 1
   \<and> fst (Plaintext_FreeRTOS_sendTo lib (Some \<lparr>pParams = None\<rparr>) pBuffer m w) = - 1
   \<and> fst (Plaintext_FreeRTOS_sendTo lib pNetworkContext None m w) = - 1
   \<and> fst (Plaintext_FreeRTOS_sendTo lib pNetworkContext pBuffer 0 w) = - 1
   \<and> fst (fst (Plaintext_FreeRTOS_recvFrom lib None pBuffer m w)) = - 1
   \<and> fst (fst (Plaintext_FreeRTOS_recvFrom lib (Some \<lparr>pParams = None\<rparr>) pBuffer m w)) = - 1
   \<and> fst (fst (Plaintext_FreeRTOS_recvFrom lib pNetworkContext None m w)) = - 1
   \<and> fst (fst (Plaintext_FreeRTOS_recvFrom lib pNetworkContext pBuffer 0 w)) = - 1"
  by (simp add: Plaintext_FreeRTOS_sendTo_def Plaintext_FreeRTOS_recvFrom_def
        call_Sockets_Send_def call_Sockets_Recv_def split: option.splits prod.splits)

text \<open>Against the echo server, a send of \<open>n + 1\<close> bytes returns \<open>n + 1\<close>.\<close>

lemma sendTo_echoServer:
  "fst (Plaintext_FreeRTOS_sendTo echoServer connectedContext (Some [7, 7, 7, 7]) (Suc n)
          \<lparr>libState = [], callLog = []\<rparr>) = int (Suc n)"
  by (simp add: Plaintext_FreeRTOS_sendTo_def call_Sockets_Send_def echoServer_def connectedContext_def)

text \<open>
  C3 as stated fails: sends of 1, 2, 3 and 4 bytes to the echo server return four
  different values, and no numbering of the three transport statuses has them all.
\<close>

theorem C3_counterexample:
  "\<not> (\<exists>enc :: PlaintextTransportStatus_t \<Rightarrow> int.
        \<forall>n \<in> {1, 2, 3, 4}.
          fst (Plaintext_FreeRTOS_sendTo echoServer connectedContext (Some [7, 7, 7, 7]) n
                 \<lparr>libState = [], callLog = []\<rparr>) \<in> range enc)"
proof
  assume "\<exists>enc :: PlaintextTransportStatus_t \<Rightarrow> int.
        \<forall>n \<in> {1, 2, 3, 4}.
          fst (Plaintext_FreeRTOS_sendTo echoServer connectedContext (Some [7, 7, 7, 7]) n
                 \<lparr>libState = [], callLog = []\<rparr>) \<in> range enc"
  then obtain enc :: "PlaintextTransportStatus_t \<Rightarrow> int" where
    enc: "\<And>n. n \<in> {1, 2, 3, 4} \<Longrightarrow>
          fst (Plaintext_FreeRTOS_sendTo echoServer connectedContext (Some [7, 7, 7, 7]) n
                 \<lparr>libState = [], callLog = []\<rparr>) \<in> range enc"
    by blast
  have "(1::int) \<in> range enc" using enc[of "Suc 0"] sendTo_echoServer[of 0] by simp
  moreover have "(2::int) \<in> range enc" using enc[of "Suc 1"] sendTo_echoServer[of 1] by simp
  moreover have "(3::int) \<in> range enc" using enc[of "Suc 2"] sendTo_echoServer[of 2] by simp
  moreover have "(4::int) \<in> range enc" using enc[of "Suc 3"] sendTo_echoServer[of 3] by simp
  ultimately obtain a b c d where e: "enc a = 1" "enc b = 2" "enc c = 3" "enc d = 4"
    by (metis rangeE)
  show False
    using e by (cases a; cases b; cases c; cases d) simp_all
qed

section \<open>Properties of the echo demo\<close>

text \<open>
  The loop of \<^verbatim>\<open>prvInitializeTestData\<close> from counter \<open>i\<close>: it ends, having written
  the low bytes of \<open>i, \<dots>, testSize - 1\<close> at those indices.
\<close>

lemma prvInitializeTestData_for_result:
  "unat i \<le> testSize \<Longrightarrow> testSize \<le> length buf \<Longrightarrow> testSize < 2 ^ 32 \<Longrightarrow>
   prvInitializeTestData_for i buf testSize
     = Some (take (unat i) buf @ map of_nat [unat i..<testSize] @ drop testSize buf)"
proof (induction "testSize - unat i" arbitrary: i buf)
  case 0
  then have "unat i = testSize" by simp
  then show ?case
    by (subst prvInitializeTestData_for.simps) simp
next
  case (Suc d)
  then have lt: "unat i < testSize" by simp
  with Suc.prems have inb: "unat i < length buf" by simp
  from lt Suc.prems have "unat i + 1 < 2 ^ 32" by simp
  then have u: "unat (i + 1) = unat i + 1"
    by (simp add: unat_word_ariths)
  have d: "d = testSize - unat (i + 1)" using Suc.hyps(2) u by simp
  have le: "unat (i + 1) \<le> testSize" using lt u by simp
  have len: "testSize \<le> length (buf[unat i := ucast i])" using Suc.prems by simp
  have "prvInitializeTestData_for i buf testSize
        = prvInitializeTestData_for (i + 1) (buf[unat i := ucast i]) testSize"
    using lt inb by (subst prvInitializeTestData_for.simps) simp
  also have "\<dots> = Some (take (unat (i + 1)) (buf[unat i := ucast i])
                      @ map of_nat [unat (i + 1)..<testSize]
                      @ drop testSize (buf[unat i := ucast i]))"
    by (rule Suc.hyps(1)[OF d le len Suc.prems(3)])
  also have "take (unat (i + 1)) (buf[unat i := ucast i]) = take (unat i) buf @ [ucast i]"
    using inb by (simp add: u take_Suc_conv_app_nth)
  also have "drop testSize (buf[unat i := ucast i]) = drop testSize buf"
    using lt by simp
  finally show ?case
    using lt by (simp add: u upt_conv_Cons)
qed

text \<open>
  C8. For a size within the array (the call writes no byte outside it) that the
  \<^verbatim>\<open>uint32_t\<close> counter can reach, \<^verbatim>\<open>prvInitializeTestData\<close> returns; after the call
  the byte at each index \<open>i < testSize\<close> is \<open>i mod 256\<close>, and the bytes at or beyond
  index \<open>testSize\<close> are unchanged.
\<close>

theorem C8_prvInitializeTestData:
  assumes "testSize \<le> length buf" and "testSize < 2 ^ 32"
  shows "\<exists>buf'. prvInitializeTestData buf testSize = Some buf'
           \<and> length buf' = length buf
           \<and> (\<forall>i<testSize. unat (buf' ! i) = i mod 256)
           \<and> (\<forall>i. testSize \<le> i \<longrightarrow> i < length buf \<longrightarrow> buf' ! i = buf ! i)"
proof -
  let ?r = "map of_nat [0..<testSize] @ drop testSize buf :: uint8_t list"
  have "prvInitializeTestData buf testSize = Some ?r"
    using assms prvInitializeTestData_for_result[of 0 testSize buf]
    by (simp add: prvInitializeTestData_def)
  moreover have "length ?r = length buf" using assms by simp
  moreover have "\<forall>i<testSize. unat (?r ! i) = i mod 256"
    by (simp add: nth_append unat_of_nat)
  moreover have "\<forall>i. testSize \<le> i \<longrightarrow> i < length buf \<longrightarrow> ?r ! i = buf ! i"
    using assms by (simp add: nth_append)
  ultimately show ?thesis by blast
qed

text \<open>C8 at an array of five bytes \<open>9\<close> and size 3.\<close>

theorem C8_witness:
  "\<exists>buf'. prvInitializeTestData [9, 9, 9, 9, 9] 3 = Some buf'
      \<and> length buf' = 5 \<and> unat (buf' ! 0) = 0 \<and> unat (buf' ! 2) = 2 \<and> buf' ! 3 = 9 \<and> buf' ! 4 = 9"
proof -
  have h1: "3 \<le> length [9, 9, 9, 9, 9 :: uint8_t]" by simp
  have h2: "(3::nat) < 2 ^ 32" by simp
  from C8_prvInitializeTestData[OF h1 h2] obtain buf' where
    b: "prvInitializeTestData [9, 9, 9, 9, 9] 3 = Some buf'"
       "length buf' = length [9, 9, 9, 9, 9 :: uint8_t]"
       "\<forall>i<3. unat (buf' ! i) = i mod 256"
       "\<forall>i. 3 \<le> i \<longrightarrow> i < length [9, 9, 9, 9, 9 :: uint8_t] \<longrightarrow> buf' ! i = [9, 9, 9, 9, 9 :: uint8_t] ! i"
    by blast
  from b(3) have "unat (buf' ! 0) = 0" "unat (buf' ! 2) = 2" by simp_all
  moreover from b(4) have "buf' ! 3 = 9" "buf' ! 4 = 9" by simp_all
  ultimately show ?thesis using b(1,2) by simp
qed

subsection \<open>One round of receiving, one pass of the loop\<close>

text \<open>With a connected context and a length that is not zero, the adapter calls the library.\<close>

lemma sendTo_valid:
  "0 < n \<Longrightarrow> Plaintext_FreeRTOS_sendTo lib (Some \<lparr>pParams = Some prm\<rparr>) (Some b) n w
     = call_Sockets_Send lib (socket prm) b n w"
  by (simp add: Plaintext_FreeRTOS_sendTo_def)

lemma recvFrom_valid:
  "0 < n \<Longrightarrow> Plaintext_FreeRTOS_recvFrom lib (Some \<lparr>pParams = Some prm\<rparr>) (Some b) n w
     = (case call_Sockets_Recv lib (socket prm) b n w of ((rc, b'), w') \<Rightarrow> ((rc, Some b'), w'))"
  by (simp add: Plaintext_FreeRTOS_recvFrom_def)

lemma call_Sockets_Recv_log:
  "call_Sockets_Recv lib sock b n w = ((rc, b'), w')
   \<Longrightarrow> callLog w' = callLog w @ [Call_Recv sock b n rc b'] \<and> length b' = length b"
  by (auto simp: call_Sockets_Recv_def store_bytes_def split: prod.splits)

lemma call_Sockets_Send_log:
  "call_Sockets_Send lib sock b n w = (rc, w')
   \<Longrightarrow> callLog w' = callLog w @ [Call_Send sock b n rc]"
  by (auto simp: call_Sockets_Send_def split: prod.splits)

text \<open>
  What one call of \<^verbatim>\<open>prvRecvPackets\<close> adds to the record: receives on the socket for
  \<open>n\<close> bytes, the first on the buffer given, all but the last partial. The call is still
  running after as many partial receives as the bound allows; it returns true after a
  receive of \<open>n\<close> bytes and false after one that returned zero or an error.
\<close>

lemma prvRecvPackets_trace:
  assumes "0 < n"
  shows "\<exists>evs b' w'.
      outcome_state (prvRecvPackets fuel lib (Some \<lparr>pParams = Some prm\<rparr>) (Some b) n w) = (Some b', w')
    \<and> callLog w' = callLog w @ evs
    \<and> length b' = length b
    \<and> list_all (is_recv_of (socket prm) n) evs
    \<and> list_all is_partial_recv (butlast evs)
    \<and> (evs = [] \<or> (\<exists>rc b1. hd evs = Call_Recv (socket prm) b n rc b1))
    \<and> (case prvRecvPackets fuel lib (Some \<lparr>pParams = Some prm\<rparr>) (Some b) n w of
          Running st \<Rightarrow> length evs = fuel \<and> list_all is_partial_recv evs
        | Returned r st \<Rightarrow>
            (\<exists>b0 rc. evs \<noteq> [] \<and> last evs = Call_Recv (socket prm) b0 n rc b'
                   \<and> (if r then rc = int n else rc \<le> 0)))"
proof (induction fuel arbitrary: b w)
  case 0
  show ?case by simp
next
  case (Suc fuel)
  obtain rc b1 w1 where c: "call_Sockets_Recv lib (socket prm) b n w = ((rc, b1), w1)"
    by (metis prod.exhaust)
  note l = call_Sockets_Recv_log[OF c]
  let ?e = "Call_Recv (socket prm) b n rc b1"
  consider (full) "rc = int n" | (part) "rc \<noteq> int n" "0 < rc" | (fail) "rc \<noteq> int n" "rc \<le> 0"
    by linarith
  then show ?case
  proof cases
    case full
    then show ?thesis using assms c l
      by (intro exI[of _ "[?e]"]) (simp add: recvFrom_valid)
  next
    case fail
    then show ?thesis using assms c l
      by (intro exI[of _ "[?e]"]) (simp add: recvFrom_valid)
  next
    case part
    have eq: "prvRecvPackets (Suc fuel) lib (Some \<lparr>pParams = Some prm\<rparr>) (Some b) n w
              = prvRecvPackets fuel lib (Some \<lparr>pParams = Some prm\<rparr>) (Some b1) n w1"
      using part assms c by (simp add: recvFrom_valid)
    from Suc.IH[of b1 w1] obtain evs b' w' where ih:
      "outcome_state (prvRecvPackets fuel lib (Some \<lparr>pParams = Some prm\<rparr>) (Some b1) n w1) = (Some b', w')"
      "callLog w' = callLog w1 @ evs"
      "length b' = length b1"
      "list_all (is_recv_of (socket prm) n) evs"
      "list_all is_partial_recv (butlast evs)"
      "(case prvRecvPackets fuel lib (Some \<lparr>pParams = Some prm\<rparr>) (Some b1) n w1 of
          Running st \<Rightarrow> length evs = fuel \<and> list_all is_partial_recv evs
        | Returned r st \<Rightarrow>
            (\<exists>b0 rc. evs \<noteq> [] \<and> last evs = Call_Recv (socket prm) b0 n rc b'
                   \<and> (if r then rc = int n else rc \<le> 0)))"
      by blast
    have pe: "is_partial_recv ?e" using part by simp
    show ?thesis
      unfolding eq
      apply (intro exI[of _ "?e # evs"] exI[of _ b'] exI[of _ w'])
      using ih l pe
      by (auto split: outcome.splits if_splits)
  qed
qed


text \<open>One pass of the loop body, when the send fails and when it succeeds.\<close>

lemma body_send_failed:
  assumes "0 < n" and c: "call_Sockets_Send lib (socket prm) (sendBuf (xEchoTestBuffer s)) n (world s) = (rcS, w1)"
      and "rcS \<noteq> int n"
  shows "prvLoopSendAndReceive_body fuel lib (Some \<lparr>pParams = Some prm\<rparr>) n fc s
           = Returned (LoopBreak False) (s\<lparr>world := w1\<rparr>)"
  using assms by (simp add: prvLoopSendAndReceive_body_def prvSendPackets_def sendTo_valid)

lemma body_trace:
  assumes n: "0 < n"
      and c: "call_Sockets_Send lib (socket prm) (sendBuf (xEchoTestBuffer s)) n (world s) = (int n, w1)"
  shows "\<exists>revs s'.
      outcome_state (prvLoopSendAndReceive_body fuel lib (Some \<lparr>pParams = Some prm\<rparr>) n fc s) = s'
    \<and> callLog (world s') = callLog (world s)
          @ Call_Send (socket prm) (sendBuf (xEchoTestBuffer s)) n (int n) # revs
    \<and> sendBuf (xEchoTestBuffer s') = sendBuf (xEchoTestBuffer s)
    \<and> length (recvBuf (xEchoTestBuffer s')) = length (recvBuf (xEchoTestBuffer s))
    \<and> list_all (is_recv_of (socket prm) n) revs
    \<and> list_all is_partial_recv (butlast revs)
    \<and> (revs = [] \<or> (\<exists>rc b1. hd revs = Call_Recv (socket prm) (recvBuf (xEchoTestBuffer s)) n rc b1))
    \<and> (case prvLoopSendAndReceive_body fuel lib (Some \<lparr>pParams = Some prm\<rparr>) n fc s of
          Running st \<Rightarrow> length revs = fuel \<and> list_all is_partial_recv revs
        | Returned ctl st \<Rightarrow>
            (\<exists>b0 rc b'. revs \<noteq> [] \<and> last revs = Call_Recv (socket prm) b0 n rc b'
               \<and> (if rc = int n then
                     (if take n (sendBuf (xEchoTestBuffer s)) = take n b'
                      then ctl = LoopNext (n + 1) 0
                         \<and> recvBuf (xEchoTestBuffer s') = replicate (length (recvBuf (xEchoTestBuffer s))) 0
                      else ctl = LoopBreak False)
                   else rc \<le> 0
                      \<and> (if unat (fc + 1) > ECHO_MAX_RETRY_COUNT then ctl = LoopBreak False
                          else ctl = LoopNext n (fc + 1)
                             \<and> recvBuf (xEchoTestBuffer s') = replicate (length (recvBuf (xEchoTestBuffer s))) 0))))"
proof -
  let ?ctx = "Some \<lparr>pParams = Some prm\<rparr>"
  let ?rb = "recvBuf (xEchoTestBuffer s)"
  note l1 = call_Sockets_Send_log[OF c]
  from prvRecvPackets_trace[OF n, of fuel lib prm ?rb w1] obtain revs b' w2 where t:
    "outcome_state (prvRecvPackets fuel lib ?ctx (Some ?rb) n w1) = (Some b', w2)"
    "callLog w2 = callLog w1 @ revs"
    "length b' = length ?rb"
    "list_all (is_recv_of (socket prm) n) revs"
    "list_all is_partial_recv (butlast revs)"
    "revs = [] \<or> (\<exists>rc b1. hd revs = Call_Recv (socket prm) ?rb n rc b1)"
    "(case prvRecvPackets fuel lib ?ctx (Some ?rb) n w1 of
          Running st \<Rightarrow> length revs = fuel \<and> list_all is_partial_recv revs
        | Returned r st \<Rightarrow>
            (\<exists>b0 rc. revs \<noteq> [] \<and> last revs = Call_Recv (socket prm) b0 n rc b'
                   \<and> (if r then rc = int n else rc \<le> 0)))"
    by blast
  have sp: "prvSendPackets lib ?ctx (Some (sendBuf (xEchoTestBuffer s))) n (world s) = (True, w1)"
    using n c by (simp add: prvSendPackets_def sendTo_valid)
  show ?thesis
  proof (cases "prvRecvPackets fuel lib ?ctx (Some ?rb) n w1")
    case (Running st)
    with t(1) have st: "st = (Some b', w2)" by simp
    have "prvLoopSendAndReceive_body fuel lib ?ctx n fc s = Running (after_recv s (Some b') w2)"
      using sp Running st by (simp add: prvLoopSendAndReceive_body_def)
    then show ?thesis
      using t Running l1
      by (intro exI[of _ revs]) (simp add: after_recv_def)
  next
    case (Returned r st)
    with t(1) have st: "st = (Some b', w2)" by simp
    from t(7) Returned obtain b0 rc where
      last: "revs \<noteq> []" "last revs = Call_Recv (socket prm) b0 n rc b'"
            "if r then rc = int n else rc \<le> 0"
      by auto
    let ?s2 = "after_recv s (Some b') w2"
    have body: "prvLoopSendAndReceive_body fuel lib ?ctx n fc s =
        (if \<not> r then
           (if unat (fc + 1) > ECHO_MAX_RETRY_COUNT then Returned (LoopBreak False) ?s2
            else Returned (LoopNext n (fc + 1)) (clear_recvBuf ?s2))
         else if memcmp_equal (sendBuf (xEchoTestBuffer ?s2)) (recvBuf (xEchoTestBuffer ?s2)) n
         then Returned (LoopNext (n + 1) 0) (clear_recvBuf ?s2)
         else Returned (LoopBreak False) ?s2)"
      using sp Returned st by (simp add: prvLoopSendAndReceive_body_def)
    have rcn: "r \<Longrightarrow> rc = int n" "\<not> r \<Longrightarrow> rc \<le> 0 \<and> rc \<noteq> int n"
      using last(3) n by (auto split: if_splits)
    show ?thesis
      unfolding body
      using t(2-6) last(1,2) l1 rcn
      by (intro exI[of _ revs])
         (auto simp: after_recv_def clear_recvBuf_def memset_def memcmp_equal_def)
  qed
qed

subsection \<open>Runs of the loop\<close>

text \<open>Without a context or a parameter block no send reaches the library.\<close>

lemma body_not_connected:
  "ctx = None \<or> ctx = Some \<lparr>pParams = None\<rparr>
   \<Longrightarrow> prvLoopSendAndReceive_body fuel lib ctx n fc s = Returned (LoopBreak False) s"
  by (auto simp: prvLoopSendAndReceive_body_def prvSendPackets_def Plaintext_FreeRTOS_sendTo_def)

lemma context_cases:
  "ctx = None \<or> ctx = Some \<lparr>pParams = None\<rparr> \<or> (\<exists>prm. ctx = Some \<lparr>pParams = Some prm\<rparr>)"
proof (cases ctx)
  case None
  then show ?thesis by simp
next
  case (Some c)
  then show ?thesis by (cases c; cases "pParams c") auto
qed

lemma loop_not_connected:
  assumes "ctx = None \<or> ctx = Some \<lparr>pParams = None\<rparr>"
  shows "prvLoopSendAndReceive_for fuel lib N ctx n fc s
           = (if n \<le> N then Returned False s else Returned True s)"
  by (simp add: body_not_connected[OF assms])

text \<open>
  Every run of the loop on a connected context only adds to the record of calls, keeps
  the send buffer and the size of the receive buffer, and adds calls of the shape
  \<open>loop_trace\<close>.
\<close>

lemma loop_trace_of_run:
  assumes "0 < n"
  shows "\<exists>evs.
      callLog (world (outcome_state (prvLoopSendAndReceive_for fuel lib N (Some \<lparr>pParams = Some prm\<rparr>) n fc s)))
        = callLog (world s) @ evs
    \<and> sendBuf (xEchoTestBuffer (outcome_state
          (prvLoopSendAndReceive_for fuel lib N (Some \<lparr>pParams = Some prm\<rparr>) n fc s)))
        = sendBuf (xEchoTestBuffer s)
    \<and> length (recvBuf (xEchoTestBuffer (outcome_state
          (prvLoopSendAndReceive_for fuel lib N (Some \<lparr>pParams = Some prm\<rparr>) n fc s))))
        = length (recvBuf (xEchoTestBuffer s))
    \<and> loop_trace N fuel (socket prm) (sendBuf (xEchoTestBuffer s)) n fc (recvBuf (xEchoTestBuffer s)) evs
         (outcome_result (prvLoopSendAndReceive_for fuel lib N (Some \<lparr>pParams = Some prm\<rparr>) n fc s))"
  using assms
proof (induction fuel lib N "Some \<lparr>pParams = Some prm\<rparr>" n fc s rule: prvLoopSendAndReceive_for.induct)
  case (1 fuel lib N n fc s)
  let ?ctx = "Some \<lparr>pParams = Some prm\<rparr>"
  let ?sb = "sendBuf (xEchoTestBuffer s)"
  let ?rb = "recvBuf (xEchoTestBuffer s)"
  let ?body = "prvLoopSendAndReceive_body fuel lib ?ctx n fc s"
  note n = \<open>0 < n\<close>
  show ?case
  proof (cases "n \<le> N")
    case False
    then show ?thesis by (simp add: loop_trace.finished)
  next
    case le: True
    obtain rcS w1 where c: "call_Sockets_Send lib (socket prm) ?sb n (world s) = (rcS, w1)"
      by (metis prod.exhaust)
    show ?thesis
    proof (cases "rcS = int n")
      case False
      have "?body = Returned (LoopBreak False) (s\<lparr>world := w1\<rparr>)"
        by (rule body_send_failed[OF n c False])
      then show ?thesis
        using le False call_Sockets_Send_log[OF c]
        by (simp add: loop_trace.send_failed)
    next
      case True
      from body_trace[OF n c[unfolded True], of fuel fc] obtain revs s' where t:
        "outcome_state ?body = s'"
        "callLog (world s') = callLog (world s) @ Call_Send (socket prm) ?sb n (int n) # revs"
        "sendBuf (xEchoTestBuffer s') = ?sb"
        "length (recvBuf (xEchoTestBuffer s')) = length ?rb"
        "recv_round (socket prm) n ?rb revs"
        "(case ?body of
          Running st \<Rightarrow> length revs = fuel \<and> list_all is_partial_recv revs
        | Returned ctl st \<Rightarrow>
            (\<exists>b0 rc b'. revs \<noteq> [] \<and> last revs = Call_Recv (socket prm) b0 n rc b'
               \<and> (if rc = int n then
                     (if take n ?sb = take n b'
                      then ctl = LoopNext (n + 1) 0
                         \<and> recvBuf (xEchoTestBuffer s') = replicate (length ?rb) 0
                      else ctl = LoopBreak False)
                   else rc \<le> 0
                      \<and> (if unat (fc + 1) > ECHO_MAX_RETRY_COUNT then ctl = LoopBreak False
                          else ctl = LoopNext n (fc + 1)
                             \<and> recvBuf (xEchoTestBuffer s') = replicate (length ?rb) 0))))"
        unfolding recv_round_def by blast
      show ?thesis
      proof (cases ?body)
        case (Running st)
        with t(1) have st: "st = s'" by simp
        from t(6) Running have r: "length revs = fuel" "list_all is_partial_recv revs" by simp_all
        have "loop_trace N fuel (socket prm) ?sb n fc ?rb (Call_Send (socket prm) ?sb n (int n) # revs) None"
          by (rule loop_trace.still_receiving[OF le t(5) r(2) r(1)])
        then show ?thesis
          using le Running st t(2,3,4) by simp
      next
        case (Returned ctl st)
        with t(1) have st: "st = s'" by simp
        from t(6) Returned obtain b0 rc b' where last:
          "revs \<noteq> []" "last revs = Call_Recv (socket prm) b0 n rc b'"
          "if rc = int n then
             (if take n ?sb = take n b'
              then ctl = LoopNext (n + 1) 0
                 \<and> recvBuf (xEchoTestBuffer s') = replicate (length ?rb) 0
              else ctl = LoopBreak False)
           else rc \<le> 0
              \<and> (if unat (fc + 1) > ECHO_MAX_RETRY_COUNT then ctl = LoopBreak False
                  else ctl = LoopNext n (fc + 1)
                     \<and> recvBuf (xEchoTestBuffer s') = replicate (length ?rb) 0)"
          by auto
        consider (mis) "rc = int n" "take n ?sb \<noteq> take n b'" "ctl = LoopBreak False"
          | (mat) "rc = int n" "take n ?sb = take n b'" "ctl = LoopNext (n + 1) 0"
                  "recvBuf (xEchoTestBuffer s') = replicate (length ?rb) 0"
          | (giv) "rc \<noteq> int n" "rc \<le> 0" "unat (fc + 1) > ECHO_MAX_RETRY_COUNT" "ctl = LoopBreak False"
          | (ret) "rc \<noteq> int n" "rc \<le> 0" "\<not> unat (fc + 1) > ECHO_MAX_RETRY_COUNT" "ctl = LoopNext n (fc + 1)"
                  "recvBuf (xEchoTestBuffer s') = replicate (length ?rb) 0"
          using last(3) by (auto split: if_splits)
        then show ?thesis
        proof cases
          case mis
          have "loop_trace N fuel (socket prm) ?sb n fc ?rb (Call_Send (socket prm) ?sb n (int n) # revs) (Some False)"
            using loop_trace.mismatch[OF le t(5) last(1) last(2)[unfolded mis(1)] mis(2)] .
          then show ?thesis
            using le Returned st mis(3) t(2,3,4) by simp
        next
          case giv
          have "loop_trace N fuel (socket prm) ?sb n fc ?rb (Call_Send (socket prm) ?sb n (int n) # revs) (Some False)"
            using loop_trace.given_up[OF le t(5) last(1) last(2) giv(2) giv(1) giv(3)] .
          then show ?thesis
            using le Returned st giv(4) t(2,3,4) by simp
        next
          case mat
          let ?next = "prvLoopSendAndReceive_for fuel lib N ?ctx (n + 1) 0 s'"
          have eq: "prvLoopSendAndReceive_for fuel lib N ?ctx n fc s = ?next"
            using le Returned st mat(3) by simp
          have "0 < n + 1" by simp
          from "1.hyps"[OF le Returned[unfolded st] mat(3) this] obtain evs where ih:
            "callLog (world (outcome_state ?next)) = callLog (world s') @ evs"
            "sendBuf (xEchoTestBuffer (outcome_state ?next)) = sendBuf (xEchoTestBuffer s')"
            "length (recvBuf (xEchoTestBuffer (outcome_state ?next))) = length (recvBuf (xEchoTestBuffer s'))"
            "loop_trace N fuel (socket prm) (sendBuf (xEchoTestBuffer s')) (n + 1) 0
               (recvBuf (xEchoTestBuffer s')) evs (outcome_result ?next)"
            by auto
          have "loop_trace N fuel (socket prm) ?sb n fc ?rb
                  (Call_Send (socket prm) ?sb n (int n) # revs @ evs) (outcome_result ?next)"
            using loop_trace.matched[OF le t(5) last(1) last(2)[unfolded mat(1)] mat(2)]
                  ih(4)[unfolded t(3) mat(4)] by blast
          then show ?thesis
            unfolding eq using ih(1,2,3) t(2,3,4) by simp
        next
          case ret
          let ?next = "prvLoopSendAndReceive_for fuel lib N ?ctx n (fc + 1) s'"
          have eq: "prvLoopSendAndReceive_for fuel lib N ?ctx n fc s = ?next"
            using le Returned st ret(4) by simp
          from "1.hyps"[OF le Returned[unfolded st] ret(4) n] obtain evs where ih:
            "callLog (world (outcome_state ?next)) = callLog (world s') @ evs"
            "sendBuf (xEchoTestBuffer (outcome_state ?next)) = sendBuf (xEchoTestBuffer s')"
            "length (recvBuf (xEchoTestBuffer (outcome_state ?next))) = length (recvBuf (xEchoTestBuffer s'))"
            "loop_trace N fuel (socket prm) (sendBuf (xEchoTestBuffer s')) n (fc + 1)
               (recvBuf (xEchoTestBuffer s')) evs (outcome_result ?next)"
            by auto
          have "loop_trace N fuel (socket prm) ?sb n fc ?rb
                  (Call_Send (socket prm) ?sb n (int n) # revs @ evs) (outcome_result ?next)"
            using loop_trace.retried[OF le t(5) last(1) last(2) ret(2) ret(1) ret(3)]
                  ih(4)[unfolded t(3) ret(5)] by blast
          then show ?thesis
            unfolding eq using ih(1,2,3) t(2,3,4) by simp
        qed
      qed
    qed
  qed
qed

text \<open>The definitions to unfold when a run against a given library is computed.\<close>

lemmas run_defs =
  prvLoopSendAndReceive_def prvLoopSendAndReceive_body_def prvSendPackets_def
  Plaintext_FreeRTOS_sendTo_def Plaintext_FreeRTOS_recvFrom_def
  call_Sockets_Send_def call_Sockets_Recv_def
  connectedContext_def freshState_def store_bytes_def after_recv_def clear_recvBuf_def
  memset_def memcmp_equal_def ECHO_MAX_RETRY_COUNT_def new_calls_def

subsection \<open>The send buffer\<close>

lemma is_recv_of_sends_from: "is_recv_of sock n ev \<Longrightarrow> sends_from pat ev"
  by (cases ev) simp_all

lemma recv_round_sends_from: "recv_round sock n rb revs \<Longrightarrow> list_all (sends_from pat) revs"
  by (auto simp: recv_round_def list_all_iff intro: is_recv_of_sends_from)

lemma loop_trace_sends_from:
  "loop_trace N fuel sock sb n fc rb evs res \<Longrightarrow> list_all (sends_from sb) evs"
  by (induction rule: loop_trace.induct) (simp_all add: recv_round_sends_from)

text \<open>A run of the loop either never reaches the library or has the shape \<open>loop_trace\<close>.\<close>

lemma loop_run_cases:
  fixes s :: "'e EchoState"
  assumes "0 < n"
  obtains (not_connected) "prvLoopSendAndReceive_for fuel lib N ctx n fc s
                             = (if n \<le> N then Returned False s else Returned True s)"
  | (connected) prm evs where
      "ctx = Some \<lparr>pParams = Some prm\<rparr>"
      "callLog (world (outcome_state (prvLoopSendAndReceive_for fuel lib N ctx n fc s)))
         = callLog (world s) @ evs"
      "sendBuf (xEchoTestBuffer (outcome_state (prvLoopSendAndReceive_for fuel lib N ctx n fc s)))
         = sendBuf (xEchoTestBuffer s)"
      "length (recvBuf (xEchoTestBuffer (outcome_state (prvLoopSendAndReceive_for fuel lib N ctx n fc s))))
         = length (recvBuf (xEchoTestBuffer s))"
      "loop_trace N fuel (socket prm) (sendBuf (xEchoTestBuffer s)) n fc (recvBuf (xEchoTestBuffer s)) evs
         (outcome_result (prvLoopSendAndReceive_for fuel lib N ctx n fc s))"
proof -
  from context_cases[of ctx] consider "ctx = None \<or> ctx = Some \<lparr>pParams = None\<rparr>"
    | prm where "ctx = Some \<lparr>pParams = Some prm\<rparr>" by blast
  then show thesis
  proof cases
    case 1
    then show ?thesis using not_connected loop_not_connected by blast
  next
    case (2 prm)
    from loop_trace_of_run[OF assms, of fuel lib N prm fc s] obtain evs where
      "callLog (world (outcome_state (prvLoopSendAndReceive_for fuel lib N (Some \<lparr>pParams = Some prm\<rparr>) n fc s)))
         = callLog (world s) @ evs"
      "sendBuf (xEchoTestBuffer (outcome_state (prvLoopSendAndReceive_for fuel lib N (Some \<lparr>pParams = Some prm\<rparr>) n fc s)))
         = sendBuf (xEchoTestBuffer s)"
      "length (recvBuf (xEchoTestBuffer (outcome_state (prvLoopSendAndReceive_for fuel lib N (Some \<lparr>pParams = Some prm\<rparr>) n fc s))))
         = length (recvBuf (xEchoTestBuffer s))"
      "loop_trace N fuel (socket prm) (sendBuf (xEchoTestBuffer s)) n fc (recvBuf (xEchoTestBuffer s)) evs
         (outcome_result (prvLoopSendAndReceive_for fuel lib N (Some \<lparr>pParams = Some prm\<rparr>) n fc s))"
      by blast
    then show ?thesis using connected[of prm evs] 2 by simp
  qed
qed

lemma new_calls_append:
  "callLog (world s') = callLog (world s) @ evs \<Longrightarrow> new_calls s s' = evs"
  by (simp add: new_calls_def)

lemma loop_send_buffer:
  fixes s :: "'e EchoState"
  shows "\<exists>evs. callLog (world (outcome_state (prvLoopSendAndReceive fuel lib N ctx s)))
                 = callLog (world s) @ evs
       \<and> sendBuf (xEchoTestBuffer (outcome_state (prvLoopSendAndReceive fuel lib N ctx s)))
           = sendBuf (xEchoTestBuffer s)
       \<and> list_all (sends_from (sendBuf (xEchoTestBuffer s))) evs"
proof -
  have n: "0 < (10::nat)" by simp
  show ?thesis
    unfolding prvLoopSendAndReceive_def
  proof (rule loop_run_cases[OF n, of fuel lib N ctx 0 s], goal_cases)
    case 1
    then show ?case by simp
  next
    case (2 prm evs)
    from loop_trace_sends_from[OF 2(5)] 2(2,3)
    show ?case by simp
  qed
qed

text \<open>The task: both arrays get the test pattern, then connect, loop and disconnect.\<close>

lemma prvInitializeTestData_whole:
  assumes "length buf < 2 ^ 32"
  shows "prvInitializeTestData buf (length buf) = Some (testPattern (length buf))"
  using assms prvInitializeTestData_for_result[of 0 "length buf" buf]
  by (simp add: prvInitializeTestData_def testPattern_def)

lemma prvTransportNetworkConnect_log:
  "\<exists>status sock' ev w1.
     prvTransportNetworkConnect lib (Some \<lparr>pParams = Some prm\<rparr>) w
       = ((status, Some \<lparr>pParams = Some \<lparr>socket = sock'\<rparr>\<rparr>), w1)
     \<and> callLog w1 = callLog w @ [ev] \<and> sends_from pat ev"
  by (cases prm)
     (auto simp: prvTransportNetworkConnect_def Plaintext_FreeRTOS_UDP_Connect_def
        call_Sockets_Udp_Connect_def split: prod.splits)

lemma prvTransportNetworkDisconnect_log:
  "\<exists>evs. callLog (prvTransportNetworkDisconnect lib ctx w) = callLog w @ evs
         \<and> list_all (sends_from pat) evs"
  by (auto simp: prvTransportNetworkDisconnect_def Plaintext_FreeRTOS_UDP_Disconnect_def
        call_Sockets_Disconnect_def split: option.splits)

lemma RunEchoTask_send_buffer:
  fixes s :: "'e EchoState"
  assumes "length (sendBuf (xEchoTestBuffer s)) < 2 ^ 32"
      and "length (recvBuf (xEchoTestBuffer s)) < 2 ^ 32"
  shows "\<exists>out evs. RunEchoTask fuel lib N s = Some out
           \<and> callLog (world (outcome_state out)) = callLog (world s) @ evs
           \<and> sendBuf (xEchoTestBuffer (outcome_state out))
               = testPattern (length (sendBuf (xEchoTestBuffer s)))
           \<and> list_all (sends_from (testPattern (length (sendBuf (xEchoTestBuffer s))))) evs"
proof -
  let ?pat = "testPattern (length (sendBuf (xEchoTestBuffer s)))"
  let ?rpat = "testPattern (length (recvBuf (xEchoTestBuffer s)))"
  note i1 = prvInitializeTestData_whole[OF assms(1)]
  note i2 = prvInitializeTestData_whole[OF assms(2)]
  from prvTransportNetworkConnect_log[of lib "\<lparr>socket = 0\<rparr>" "world s" ?pat]
  obtain status sock' ev w1 where c:
    "prvTransportNetworkConnect lib (Some \<lparr>pParams = Some \<lparr>socket = 0\<rparr>\<rparr>) (world s)
       = ((status, Some \<lparr>pParams = Some \<lparr>socket = sock'\<rparr>\<rparr>), w1)"
    "callLog w1 = callLog (world s) @ [ev]" "sends_from ?pat ev"
    by blast
  let ?ctx = "Some \<lparr>pParams = Some \<lparr>socket = sock'\<rparr>\<rparr>"
  let ?s1 = "\<lparr>world = w1, xEchoTestBuffer = \<lparr>sendBuf = ?pat, recvBuf = ?rpat\<rparr>\<rparr>"
  show ?thesis
  proof (cases status)
    case False
    from prvTransportNetworkDisconnect_log[of lib ?ctx w1 ?pat] obtain evs where
      d: "callLog (prvTransportNetworkDisconnect lib ?ctx w1) = callLog w1 @ evs"
         "list_all (sends_from ?pat) evs" by blast
    show ?thesis
      using i1 i2 c False d by (simp add: RunEchoTask_def)
  next
    case True
    let ?run = "prvLoopSendAndReceive fuel lib N ?ctx ?s1"
    from loop_send_buffer[of fuel lib N ?ctx ?s1] obtain evs1 where l:
      "callLog (world (outcome_state ?run)) = callLog w1 @ evs1"
      "sendBuf (xEchoTestBuffer (outcome_state ?run)) = ?pat"
      "list_all (sends_from ?pat) evs1"
      by auto
    show ?thesis
    proof (cases ?run)
      case (Running s')
      then show ?thesis
        using i1 i2 c True l by (simp add: RunEchoTask_def)
    next
      case (Returned r s')
      from prvTransportNetworkDisconnect_log[of lib ?ctx "world s'" ?pat] obtain evs where
        d: "callLog (prvTransportNetworkDisconnect lib ?ctx (world s')) = callLog (world s') @ evs"
           "list_all (sends_from ?pat) evs" by blast
      show ?thesis
        using i1 i2 c True l Returned d by (simp add: RunEchoTask_def)
    qed
  qed
qed

text \<open>
  C10. The loop never writes the send buffer: in whatever state a run of
  \<^verbatim>\<open>prvLoopSendAndReceive\<close> stands or ends, the send buffer is the one it started with,
  and every send it made (one per pass) was a send of that buffer. In a run of the task
  (on arrays that a \<^verbatim>\<open>uint32_t\<close> can index) that buffer is the test pattern
  \<open>0, 1, \<dots>, 255, 0, \<dots>\<close> installed at the start of the task.
\<close>

theorem C10_send_buffer_never_written:
  fixes s :: "'e EchoState"
  shows "sendBuf (xEchoTestBuffer (outcome_state (prvLoopSendAndReceive fuel lib N ctx s)))
           = sendBuf (xEchoTestBuffer s)
       \<and> list_all (sends_from (sendBuf (xEchoTestBuffer s)))
            (new_calls s (outcome_state (prvLoopSendAndReceive fuel lib N ctx s)))
       \<and> (length (sendBuf (xEchoTestBuffer s)) < 2 ^ 32
            \<and> length (recvBuf (xEchoTestBuffer s)) < 2 ^ 32
          \<longrightarrow> (\<exists>out. RunEchoTask fuel lib N s = Some out
                 \<and> sendBuf (xEchoTestBuffer (outcome_state out))
                     = testPattern (length (sendBuf (xEchoTestBuffer s)))
                 \<and> list_all (sends_from (testPattern (length (sendBuf (xEchoTestBuffer s)))))
                     (new_calls s (outcome_state out))))"
proof (intro conjI impI)
  from loop_send_buffer[of fuel lib N ctx s] obtain evs where l:
    "callLog (world (outcome_state (prvLoopSendAndReceive fuel lib N ctx s))) = callLog (world s) @ evs"
    "sendBuf (xEchoTestBuffer (outcome_state (prvLoopSendAndReceive fuel lib N ctx s)))
       = sendBuf (xEchoTestBuffer s)"
    "list_all (sends_from (sendBuf (xEchoTestBuffer s))) evs"
    by blast
  show "sendBuf (xEchoTestBuffer (outcome_state (prvLoopSendAndReceive fuel lib N ctx s)))
           = sendBuf (xEchoTestBuffer s)" by (rule l(2))
  show "list_all (sends_from (sendBuf (xEchoTestBuffer s)))
            (new_calls s (outcome_state (prvLoopSendAndReceive fuel lib N ctx s)))"
    using l(3) new_calls_append[OF l(1)] by simp
next
  assume "length (sendBuf (xEchoTestBuffer s)) < 2 ^ 32
            \<and> length (recvBuf (xEchoTestBuffer s)) < 2 ^ 32"
  then have a: "length (sendBuf (xEchoTestBuffer s)) < 2 ^ 32"
    and b: "length (recvBuf (xEchoTestBuffer s)) < 2 ^ 32" by simp_all
  from RunEchoTask_send_buffer[OF a b, of fuel lib N] obtain out evs where r:
    "RunEchoTask fuel lib N s = Some out"
    "callLog (world (outcome_state out)) = callLog (world s) @ evs"
    "sendBuf (xEchoTestBuffer (outcome_state out)) = testPattern (length (sendBuf (xEchoTestBuffer s)))"
    "list_all (sends_from (testPattern (length (sendBuf (xEchoTestBuffer s))))) evs"
    by blast
  show "\<exists>out. RunEchoTask fuel lib N s = Some out
                 \<and> sendBuf (xEchoTestBuffer (outcome_state out))
                     = testPattern (length (sendBuf (xEchoTestBuffer s)))
                 \<and> list_all (sends_from (testPattern (length (sendBuf (xEchoTestBuffer s)))))
                     (new_calls s (outcome_state out))"
    using r new_calls_append[OF r(2)] by auto
qed

text \<open>C10 for the task run against the echo server with arrays of 10 bytes.\<close>

theorem C10_witness:
  "\<exists>out. RunEchoTask 1 echoServer 10 (freshState 10 []) = Some out
      \<and> sendBuf (xEchoTestBuffer (outcome_state out)) = testPattern 10
      \<and> list_all (sends_from (testPattern 10)) (new_calls (freshState 10 []) (outcome_state out))"
proof -
  have h: "length (sendBuf (xEchoTestBuffer (freshState 10 ([] :: uint8_t list)))) < 2 ^ 32
         \<and> length (recvBuf (xEchoTestBuffer (freshState 10 ([] :: uint8_t list)))) < 2 ^ 32"
    by (simp add: freshState_def)
  have l: "length (sendBuf (xEchoTestBuffer (freshState 10 ([] :: uint8_t list)))) = 10"
    by (simp add: freshState_def)
  from C10_send_buffer_never_written[of 1 echoServer 10 connectedContext "freshState 10 []"] h
  have "\<exists>out. RunEchoTask 1 echoServer 10 (freshState 10 []) = Some out
      \<and> sendBuf (xEchoTestBuffer (outcome_state out))
          = testPattern (length (sendBuf (xEchoTestBuffer (freshState 10 ([] :: uint8_t list)))))
      \<and> list_all (sends_from (testPattern (length (sendBuf (xEchoTestBuffer (freshState 10 ([] :: uint8_t list)))))))
          (new_calls (freshState 10 []) (outcome_state out))"
    by blast
  then show ?thesis unfolding l .
qed

subsection \<open>Failed receives\<close>

text \<open>A call of \<^verbatim>\<open>prvRecvPackets\<close> has at most one failed receive, its last.\<close>

lemma partial_not_failure: "is_partial_recv ev \<Longrightarrow> \<not> is_recv_failure k ev"
  by (cases ev) auto

lemma filter_failures_partial:
  "list_all is_partial_recv evs \<Longrightarrow> filter (is_recv_failure k) evs = []"
  by (induction evs) (auto dest: partial_not_failure)

lemma recv_round_failures:
  assumes "recv_round sock n rb revs"
  shows "length (filter (is_recv_failure k) revs) \<le> (if k = n then 1 else 0)"
proof (cases "revs = []")
  case True
  then show ?thesis by simp
next
  case False
  then have split: "revs = butlast revs @ [last revs]" by simp
  from assms have p: "list_all is_partial_recv (butlast revs)"
    and r: "list_all (is_recv_of sock n) revs" by (simp_all add: recv_round_def)
  from r False have "is_recv_of sock n (last revs)"
    by (simp add: list_all_iff)
  then have "k \<noteq> n \<Longrightarrow> \<not> is_recv_failure k (last revs)"
    by (cases "last revs") auto
  then have "length (filter (is_recv_failure k) [last revs]) \<le> (if k = n then 1 else 0)"
    by auto
  moreover have "filter (is_recv_failure k) revs
      = filter (is_recv_failure k) (butlast revs) @ filter (is_recv_failure k) [last revs]"
    by (subst split) (simp only: filter_append)
  ultimately show ?thesis
    using filter_failures_partial[OF p, of k] by simp
qed

lemma recv_round_no_failure:
  assumes "recv_round sock n rb revs" and "revs \<noteq> []"
      and "last revs = Call_Recv sock b0 n rc b'" and "0 < rc"
  shows "filter (is_recv_failure k) revs = []"
proof -
  from assms(2) have split: "revs = butlast revs @ [last revs]" by simp
  from assms(1) have p: "list_all is_partial_recv (butlast revs)" by (simp add: recv_round_def)
  have "filter (is_recv_failure k) revs
      = filter (is_recv_failure k) (butlast revs) @ filter (is_recv_failure k) [last revs]"
    by (subst split) (simp only: filter_append)
  then show ?thesis
    using filter_failures_partial[OF p, of k] assms(3,4) by simp
qed

lemma unat_failCount_Suc:
  "unat (fc :: uint16_t) \<le> 10 \<Longrightarrow> unat (fc + 1) = unat fc + 1"
  by (simp add: unat_word_ariths)

text \<open>
  From a pass with size \<open>n\<close> and failure count \<open>fc\<close> on, the failed receives for \<open>n\<close>
  bytes are at most those that the count still allows, for a larger size at most
  \<^verbatim>\<open>ECHO_MAX_RETRY_COUNT\<close> + 1, and there are none for a smaller size.
\<close>

lemma loop_trace_failures:
  "loop_trace N fuel sock sb n fc rb evs res \<Longrightarrow> 0 < n \<Longrightarrow> unat fc \<le> ECHO_MAX_RETRY_COUNT
   \<Longrightarrow> length (filter (is_recv_failure k) evs)
       \<le> (if k = n then ECHO_MAX_RETRY_COUNT + 1 - unat fc
           else if n < k then ECHO_MAX_RETRY_COUNT + 1 else 0)"
proof (induction rule: loop_trace.induct)
  case (finished n fc rb)
  then show ?case by simp
next
  case (send_failed n rcS fc rb)
  then show ?case by simp
next
  case (still_receiving n rb revs fc)
  then show ?case by (simp add: filter_failures_partial)
next
  case (mismatch n rb revs b0 b' fc)
  then have "filter (is_recv_failure k) revs = []"
    using recv_round_no_failure[of sock n rb revs b0 "int n" b' k] by simp
  then show ?case by simp
next
  case (matched n rb revs b0 b' evs res fc)
  then have "filter (is_recv_failure k) revs = []"
    using recv_round_no_failure[of sock n rb revs b0 "int n" b' k] by simp
  moreover have "length (filter (is_recv_failure k) evs)
       \<le> (if k = n + 1 then ECHO_MAX_RETRY_COUNT + 1 - unat (0 :: uint16_t)
           else if n + 1 < k then ECHO_MAX_RETRY_COUNT + 1 else 0)"
    using matched.IH by simp
  ultimately show ?case
    using matched.prems by (auto split: if_splits)
next
  case (given_up n rb revs b0 rc b' fc)
  from recv_round_failures[OF given_up(2), of k] given_up.prems
  show ?case by (auto split: if_splits)
next
  case (retried n rb revs b0 rc b' fc evs res)
  from retried.prems(2) have u: "unat (fc + 1) = unat fc + 1"
    by (simp add: unat_failCount_Suc ECHO_MAX_RETRY_COUNT_def)
  from retried.hyps(7) have le: "unat (fc + 1) \<le> ECHO_MAX_RETRY_COUNT" by simp
  note ih = retried.IH[OF retried.prems(1) le]
  from recv_round_failures[OF retried.hyps(2), of k] ih u retried.prems
  show ?case by (auto split: if_splits)
qed

text \<open>Only a partial receive keeps a call of \<^verbatim>\<open>prvRecvPackets\<close> from returning.\<close>

lemma loop_trace_returns:
  "loop_trace N fuel sock sb n fc rb evs res \<Longrightarrow> 0 < fuel \<Longrightarrow> \<not> list_ex is_partial_recv evs
   \<Longrightarrow> res \<noteq> None"
proof (induction rule: loop_trace.induct)
  case (still_receiving n rb revs fc)
  then have "revs \<noteq> []" by auto
  with still_receiving have "list_ex is_partial_recv revs"
    by (cases revs) (auto)
  with still_receiving show ?case by simp
qed (auto)

text \<open>
  C5, as amended. Whatever the library returns, a run of the loop has at most
  \<^verbatim>\<open>ECHO_MAX_RETRY_COUNT\<close> + 1 receives that returned zero or an error for any one packet
  size \<open>k\<close>. A receive that returns a positive count other than the size is repeated
  without being counted; a run in which no receive does so returns (every call of
  \<^verbatim>\<open>prvRecvPackets\<close> needs one attempt only).
\<close>

theorem C5_receive_failures_bounded:
  fixes s :: "'e EchoState"
  shows "length (filter (is_recv_failure k)
           (new_calls s (outcome_state (prvLoopSendAndReceive fuel lib N ctx s))))
           \<le> ECHO_MAX_RETRY_COUNT + 1
       \<and> (0 < fuel
            \<and> \<not> list_ex is_partial_recv
                  (new_calls s (outcome_state (prvLoopSendAndReceive fuel lib N ctx s)))
          \<longrightarrow> outcome_result (prvLoopSendAndReceive fuel lib N ctx s) \<noteq> None)"
proof -
  have n: "0 < (10::nat)" by simp
  show ?thesis
    unfolding prvLoopSendAndReceive_def
  proof (rule loop_run_cases[OF n, of fuel lib N ctx 0 s], goal_cases)
    case 1
    then show ?case by (auto simp add: new_calls_def simp del: prvLoopSendAndReceive_for.simps)
  next
    case (2 prm evs)
    note nc = new_calls_append[OF 2(2)]
    have "length (filter (is_recv_failure k) evs)
            \<le> (if k = 10 then ECHO_MAX_RETRY_COUNT + 1 - unat (0 :: uint16_t)
                else if 10 < k then ECHO_MAX_RETRY_COUNT + 1 else 0)"
      by (rule loop_trace_failures[OF 2(5) n]) simp
    then have a: "length (filter (is_recv_failure k) evs) \<le> ECHO_MAX_RETRY_COUNT + 1"
      by (simp split: if_splits)
    have b: "0 < fuel \<Longrightarrow> \<not> list_ex is_partial_recv evs
        \<Longrightarrow> outcome_result (prvLoopSendAndReceive_for fuel lib N ctx 10 0 s) \<noteq> None"
      by (rule loop_trace_returns[OF 2(5)])
    show ?case using a b nc by simp
  qed
qed

text \<open>
  C5 on a network that delivers nothing: every receive returns 0, no receive is partial,
  and the run returns.
\<close>

theorem C5_witness:
  "length (filter (is_recv_failure 10)
     (new_calls (freshState 10 0)
        (outcome_state (prvLoopSendAndReceive 1 (lossyServer (\<lambda>k. 0)) 10 connectedContext (freshState 10 0)))))
     \<le> ECHO_MAX_RETRY_COUNT + 1
   \<and> (0::nat) < 1
   \<and> \<not> list_ex is_partial_recv
         (new_calls (freshState 10 0)
            (outcome_state (prvLoopSendAndReceive 1 (lossyServer (\<lambda>k. 0)) 10 connectedContext (freshState 10 0))))
   \<and> outcome_result (prvLoopSendAndReceive 1 (lossyServer (\<lambda>k. 0)) 10 connectedContext (freshState 10 0))
        \<noteq> None"
proof -
  have h: "\<not> list_ex is_partial_recv
         (new_calls (freshState 10 0)
            (outcome_state (prvLoopSendAndReceive 1 (lossyServer (\<lambda>k. 0)) 10 connectedContext (freshState 10 0))))"
    by (simp add: run_defs lossyServer_def)
  from C5_receive_failures_bounded[of 10 "freshState 10 0" 1 "lossyServer (\<lambda>k. 0)" 10 connectedContext] h
  show ?thesis by blast
qed

text \<open>
  A library whose every receive returns one byte's worth: a call of
  \<^verbatim>\<open>prvRecvPackets\<close> for 10 bytes is still running after any number of attempts.
\<close>

lemma store_bytes_Nil: "store_bytes [] b = b"
  by (simp add: store_bytes_def)

lemma prvRecvPackets_always_partial:
  "prvRecvPackets fuel (lossyServer (\<lambda>k. 1)) connectedContext (Some b) 10 w
     = Running (Some b, \<lparr>libState = libState w + fuel,
                         callLog = callLog w @ replicate fuel (Call_Recv 1 b 10 1 b)\<rparr>)"
proof (induction fuel arbitrary: w)
  case 0
  show ?case by simp
next
  case (Suc fuel)
  have step: "Plaintext_FreeRTOS_recvFrom (lossyServer (\<lambda>k. 1)) connectedContext (Some b) 10 w
      = ((1, Some b), \<lparr>libState = Suc (libState w), callLog = callLog w @ [Call_Recv 1 b 10 1 b]\<rparr>)"
    by (simp add: Plaintext_FreeRTOS_recvFrom_def call_Sockets_Recv_def lossyServer_def
          connectedContext_def store_bytes_Nil)
  show ?case
    by (simp add: step Suc.IH)
qed

text \<open>
  C5 as stated fails: against that library, and for every number \<open>fuel\<close>, the loop has
  made \<open>fuel\<close> receive attempts for the packet of size 10 and has neither moved on nor
  aborted. No number bounds the attempts for one packet.
\<close>

theorem C5_counterexample:
  "\<forall>fuel.
     outcome_result (prvLoopSendAndReceive fuel (lossyServer (\<lambda>k. 1)) 10 connectedContext (freshState 10 0))
       = None
   \<and> length (filter (is_recv_of 1 10)
        (new_calls (freshState 10 0)
           (outcome_state
              (prvLoopSendAndReceive fuel (lossyServer (\<lambda>k. 1)) 10 connectedContext (freshState 10 0)))))
       = fuel"
proof
  fix fuel
  have send: "prvSendPackets (lossyServer (\<lambda>k. 1)) connectedContext (Some (replicate 10 0)) 10
                \<lparr>libState = 0, callLog = []\<rparr>
              = (True, \<lparr>libState = 0, callLog = [Call_Send 1 (replicate 10 0) 10 10]\<rparr>)"
    by (simp add: prvSendPackets_def Plaintext_FreeRTOS_sendTo_def call_Sockets_Send_def
          lossyServer_def connectedContext_def)
  have body: "prvLoopSendAndReceive_body fuel (lossyServer (\<lambda>k. 1)) connectedContext 10 0 (freshState 10 0)
      = Running \<lparr>world = \<lparr>libState = fuel,
                    callLog = Call_Send 1 (replicate 10 0) 10 10
                              # replicate fuel (Call_Recv 1 (replicate 10 0) 10 1 (replicate 10 0))\<rparr>,
                  xEchoTestBuffer = \<lparr>sendBuf = replicate 10 0, recvBuf = replicate 10 0\<rparr>\<rparr>"
    by (simp add: prvLoopSendAndReceive_body_def freshState_def send prvRecvPackets_always_partial
          after_recv_def)
  have run: "prvLoopSendAndReceive fuel (lossyServer (\<lambda>k. 1)) 10 connectedContext (freshState 10 0)
      = Running \<lparr>world = \<lparr>libState = fuel,
                    callLog = Call_Send 1 (replicate 10 0) 10 10
                              # replicate fuel (Call_Recv 1 (replicate 10 0) 10 1 (replicate 10 0))\<rparr>,
                  xEchoTestBuffer = \<lparr>sendBuf = replicate 10 0, recvBuf = replicate 10 0\<rparr>\<rparr>"
    by (simp add: prvLoopSendAndReceive_def body)
  show "outcome_result (prvLoopSendAndReceive fuel (lossyServer (\<lambda>k. 1)) 10 connectedContext (freshState 10 0))
       = None
   \<and> length (filter (is_recv_of 1 10)
        (new_calls (freshState 10 0)
           (outcome_state
              (prvLoopSendAndReceive fuel (lossyServer (\<lambda>k. 1)) 10 connectedContext (freshState 10 0)))))
       = fuel"
    unfolding run by (simp add: new_calls_def freshState_def)
qed

subsection \<open>A run without loss\<close>

lemma partial_not_echoed: "is_partial_recv ev \<Longrightarrow> \<not> echoed pat ev"
  by (cases ev) auto

lemma recv_round_sent_sizes: "recv_round sock n rb revs \<Longrightarrow> sent_sizes revs = []"
proof -
  have "list_all (is_recv_of sock n) revs \<Longrightarrow> sent_sizes revs = []"
  proof (induction revs)
    case Nil
    show ?case by (simp add: sent_sizes_def)
  next
    case (Cons ev revs)
    then show ?case by (cases ev) (simp_all add: sent_sizes_def)
  qed
  then show "recv_round sock n rb revs \<Longrightarrow> sent_sizes revs = []"
    by (simp add: recv_round_def)
qed

lemma sent_sizes_pass:
  "recv_round sock n rb revs
   \<Longrightarrow> sent_sizes (Call_Send sock sb n rc # revs @ evs) = n # sent_sizes evs"
  using recv_round_sent_sizes[of sock n rb revs] by (simp add: sent_sizes_def)

lemma last_echoed:
  "revs \<noteq> [] \<Longrightarrow> list_all (echoed pat) revs \<Longrightarrow> echoed pat (last revs)"
  by (simp add: list_all_iff)

lemma loop_trace_echoed:
  "loop_trace N fuel sock sb n fc rb evs res \<Longrightarrow> 0 < n \<Longrightarrow> 0 < fuel
   \<Longrightarrow> list_all (echoed sb) evs
   \<Longrightarrow> res = Some True \<and> sent_sizes evs = [n..<Suc N]"
proof (induction rule: loop_trace.induct)
  case (finished n fc rb)
  then show ?case by (simp add: sent_sizes_def)
next
  case (send_failed n rcS fc rb)
  then show ?case by simp
next
  case (still_receiving n rb revs fc)
  then have "revs \<noteq> []" by auto
  then obtain ev revs' where "revs = ev # revs'" by (cases revs) auto
  with still_receiving show ?case by (auto dest: partial_not_echoed)
next
  case (mismatch n rb revs b0 b' fc)
  from mismatch.prems have "list_all (echoed sb) revs" by simp
  with mismatch.hyps(3) have "echoed sb (last revs)" by (rule last_echoed)
  with mismatch.hyps show ?case by simp
next
  case (matched n rb revs b0 b' evs res fc)
  from matched.prems have "list_all (echoed sb) evs" by simp
  with matched.IH matched.prems have "res = Some True" "sent_sizes evs = [n + 1..<Suc N]" by simp_all
  moreover have "[n..<Suc N] = n # [n + 1..<Suc N]"
    using matched.hyps(1) by (simp add: upt_conv_Cons)
  ultimately show ?case
    using sent_sizes_pass[OF matched.hyps(2)] by simp
next
  case (given_up n rb revs b0 rc b' fc)
  from given_up.prems have "list_all (echoed sb) revs" by simp
  with given_up.hyps(3) have "echoed sb (last revs)" by (rule last_echoed)
  with given_up.hyps show ?case by simp
next
  case (retried n rb revs b0 rc b' fc evs res)
  from retried.prems have "list_all (echoed sb) revs" by simp
  with retried.hyps(3) have "echoed sb (last revs)" by (rule last_echoed)
  with retried.hyps show ?case by simp
qed

text \<open>
  C6. On a connected context, a run of the loop in which every send succeeded and every
  receive returned a byte-exact echo has returned success (one receive attempt for each
  call of \<^verbatim>\<open>prvRecvPackets\<close> is enough for that), and the sizes of the packets it sent
  are 10, 11, \<dots>, \<^verbatim>\<open>ECHO_BUFFER_MAX_SIZE\<close>, each once and in this order.
\<close>

theorem C6_all_sizes_in_order:
  fixes s :: "'e EchoState"
  assumes "0 < fuel"
      and "list_all (echoed (sendBuf (xEchoTestBuffer s)))
             (new_calls s (outcome_state
                (prvLoopSendAndReceive fuel lib N (Some \<lparr>pParams = Some prm\<rparr>) s)))"
  shows "outcome_result (prvLoopSendAndReceive fuel lib N (Some \<lparr>pParams = Some prm\<rparr>) s) = Some True
       \<and> sent_sizes (new_calls s (outcome_state
            (prvLoopSendAndReceive fuel lib N (Some \<lparr>pParams = Some prm\<rparr>) s))) = [10..<Suc N]"
proof -
  have n: "0 < (10::nat)" by simp
  from loop_trace_of_run[OF n, of fuel lib N prm 0 s] obtain evs where t:
    "callLog (world (outcome_state (prvLoopSendAndReceive_for fuel lib N (Some \<lparr>pParams = Some prm\<rparr>) 10 0 s)))
       = callLog (world s) @ evs"
    "loop_trace N fuel (socket prm) (sendBuf (xEchoTestBuffer s)) 10 0 (recvBuf (xEchoTestBuffer s)) evs
       (outcome_result (prvLoopSendAndReceive_for fuel lib N (Some \<lparr>pParams = Some prm\<rparr>) 10 0 s))"
    by blast
  note nc = new_calls_append[OF t(1)]
  from assms(2) have "list_all (echoed (sendBuf (xEchoTestBuffer s))) evs"
    by (simp add: prvLoopSendAndReceive_def nc del: prvLoopSendAndReceive_for.simps)
  from loop_trace_echoed[OF t(2) n assms(1) this] show ?thesis
    by (simp add: prvLoopSendAndReceive_def nc del: prvLoopSendAndReceive_for.simps)
qed

lemma testPattern_12: "testPattern 12 = [0, 1, 2, 3, 4, 5, 6, 7, 8, 9, 10, 11]"
  by (simp add: testPattern_def upt_rec)

text \<open>C6 against the echo server, with arrays of 12 bytes: the run sends sizes 10, 11, 12.\<close>

theorem C6_witness:
  "(0::nat) < 1
   \<and> list_all (echoed (sendBuf (xEchoTestBuffer (patternState 12 ([] :: uint8_t list)))))
        (new_calls (patternState 12 ([] :: uint8_t list)) (outcome_state
           (prvLoopSendAndReceive 1 echoServer 12 (Some \<lparr>pParams = Some \<lparr>socket = 1\<rparr>\<rparr>) (patternState 12 ([] :: uint8_t list)))))
   \<and> outcome_result
        (prvLoopSendAndReceive 1 echoServer 12 (Some \<lparr>pParams = Some \<lparr>socket = 1\<rparr>\<rparr>) (patternState 12 ([] :: uint8_t list)))
        = Some True
   \<and> sent_sizes (new_calls (patternState 12 ([] :: uint8_t list)) (outcome_state
        (prvLoopSendAndReceive 1 echoServer 12 (Some \<lparr>pParams = Some \<lparr>socket = 1\<rparr>\<rparr>) (patternState 12 ([] :: uint8_t list)))))
        = [10, 11, 12]"
proof -
  have h: "list_all (echoed (sendBuf (xEchoTestBuffer (patternState 12 ([] :: uint8_t list)))))
        (new_calls (patternState 12 ([] :: uint8_t list)) (outcome_state
           (prvLoopSendAndReceive 1 echoServer 12 (Some \<lparr>pParams = Some \<lparr>socket = 1\<rparr>\<rparr>) (patternState 12 ([] :: uint8_t list)))))"
    by (simp add: run_defs echoServer_def patternState_def testPattern_12)
  have u: "[10..<Suc 12] = [10, 11, 12]" by (simp add: upt_rec)
  have z: "(0::nat) < 1" by simp
  note r = C6_all_sizes_in_order[OF z h]
  from z h r[unfolded u] show ?thesis by blast
qed

subsection \<open>The receive buffer between passes\<close>

lemma first_attempts_recvs:
  "list_all (is_recv_of sock n) revs \<Longrightarrow> first_attempts (revs @ evs) = first_attempts evs"
proof (induction revs)
  case Nil
  show ?case by simp
next
  case (Cons ev revs)
  then show ?case by (cases ev) simp_all
qed

lemma first_attempts_pass:
  assumes "recv_round sock n rb revs" and "revs \<noteq> []"
  shows "first_attempts (Call_Send sock sb n rc # revs @ evs) = rb # first_attempts evs"
proof -
  from assms obtain rc1 b1 revs' where r: "revs = Call_Recv sock rb n rc1 b1 # revs'"
    by (cases revs) (auto simp: recv_round_def)
  with assms(1) have "list_all (is_recv_of sock n) revs'" by (simp add: recv_round_def)
  from first_attempts_recvs[OF this] r show ?thesis by simp
qed

lemma first_attempts_pass_only:
  assumes "recv_round sock n rb revs"
  shows "first_attempts (Call_Send sock sb n rc # revs) = (if revs = [] then [] else [rb])"
proof (cases "revs = []")
  case True
  then show ?thesis by simp
next
  case False
  from first_attempts_pass[OF assms False, of sb rc "[]"] False show ?thesis by simp
qed

text \<open>
  The first attempt of the first pass gets the receive buffer as the loop found it, the
  first attempt of every later pass a zeroed one.
\<close>

lemma loop_trace_first_attempts:
  "loop_trace N fuel sock sb n fc rb evs res
   \<Longrightarrow> first_attempts evs = []
       \<or> (\<exists>rest. first_attempts evs = rb # rest
                 \<and> list_all (\<lambda>b. b = replicate (length rb) 0) rest)"
proof (induction rule: loop_trace.induct)
  case (finished n fc rb)
  show ?case by simp
next
  case (send_failed n rcS fc rb)
  show ?case by simp
next
  case (still_receiving n rb revs fc)
  then show ?case by (simp add: first_attempts_pass_only)
next
  case (mismatch n rb revs b0 b' fc)
  then show ?case by (simp add: first_attempts_pass_only)
next
  case (matched n rb revs b0 b' evs res fc)
  from matched.IH have "list_all (\<lambda>b. b = replicate (length rb) 0) (first_attempts evs)"
    by auto
  then show ?case
    using first_attempts_pass[OF matched.hyps(2,3)] by simp
next
  case (given_up n rb revs b0 rc b' fc)
  then show ?case by (simp add: first_attempts_pass_only)
next
  case (retried n rb revs b0 rc b' fc evs res)
  from retried.IH have "list_all (\<lambda>b. b = replicate (length rb) 0) (first_attempts evs)"
    by auto
  then show ?case
    using first_attempts_pass[OF retried.hyps(2,3)] by simp
qed

text \<open>
  C1, as amended. In every run of the loop, the first receive attempt of every pass
  after the first pass is made on a receive buffer that holds only zero bytes.
\<close>

theorem C1_receive_buffer_zeroed_between_passes:
  fixes s :: "'e EchoState"
  shows "list_all (\<lambda>b. b = replicate (length (recvBuf (xEchoTestBuffer s))) 0)
           (tl (first_attempts
                  (new_calls s (outcome_state (prvLoopSendAndReceive fuel lib N ctx s)))))"
proof -
  have n: "0 < (10::nat)" by simp
  show ?thesis
    unfolding prvLoopSendAndReceive_def
  proof (rule loop_run_cases[OF n, of fuel lib N ctx 0 s], goal_cases)
    case 1
    then show ?case by (auto simp add: new_calls_def simp del: prvLoopSendAndReceive_for.simps)
  next
    case (2 prm evs)
    from loop_trace_first_attempts[OF 2(5)] new_calls_append[OF 2(2)]
    show ?case by auto
  qed
qed

text \<open>
  For instance, the run against the echo server with arrays of 12 bytes has three passes:
  the first receives on the buffer as the loop found it, the other two on zeros.
\<close>

lemma first_attempts_echo_run:
  "first_attempts (new_calls (patternState 12 [])
      (outcome_state (prvLoopSendAndReceive 1 echoServer 12 connectedContext
                        (patternState 12 ([] :: uint8_t list)))))
   = [[0, 1, 2, 3, 4, 5, 6, 7, 8, 9, 10, 11],
      [0, 0, 0, 0, 0, 0, 0, 0, 0, 0, 0, 0],
      [0, 0, 0, 0, 0, 0, 0, 0, 0, 0, 0, 0]]"
  by (simp add: run_defs echoServer_def patternState_def testPattern_12)

lemma testPattern_10: "testPattern 10 = [0, 1, 2, 3, 4, 5, 6, 7, 8, 9]"
  by (simp add: testPattern_def upt_rec)

lemma replicate_10: "replicate 10 x = [x, x, x, x, x, x, x, x, x, x]"
  by (simp add: numeral_eq_Suc)

text \<open>
  C1 as stated fails twice. The task fills the receive buffer with the test pattern, not
  with zeros, and the first receive of the run against the echo server is made on that
  pattern (first equation: the second argument of the receive is the buffer on entry).
  And \<^verbatim>\<open>prvRecvPackets\<close> repeats a receive after a partial one without clearing the
  buffer: against the network that delivers one byte at a time the second attempt is made
  on a buffer that starts with the byte 7 (second equation).
\<close>

theorem C1_counterexample:
  "RunEchoTask 1 echoServer 10 (freshState 10 [])
     = Some (Returned True
        \<lparr>world = \<lparr>libState = [],
                  callLog =
                    [Call_Udp_Connect 0 ''PLACE_HOLDER'' 9000 5000 5000 0 1,
                     Call_Send 1 [0, 1, 2, 3, 4, 5, 6, 7, 8, 9] 10 10,
                     Call_Recv 1 [0, 1, 2, 3, 4, 5, 6, 7, 8, 9] 10 10 [0, 1, 2, 3, 4, 5, 6, 7, 8, 9],
                     Call_Disconnect 1]\<rparr>,
         xEchoTestBuffer = \<lparr>sendBuf = [0, 1, 2, 3, 4, 5, 6, 7, 8, 9],
                            recvBuf = [0, 0, 0, 0, 0, 0, 0, 0, 0, 0]\<rparr>\<rparr>)
   \<and> callLog (world (outcome_state
        (prvLoopSendAndReceive 2 dribblingServer 10 connectedContext (freshState 10 0))))
     = [Call_Send 1 [0, 0, 0, 0, 0, 0, 0, 0, 0, 0] 10 10,
        Call_Recv 1 [0, 0, 0, 0, 0, 0, 0, 0, 0, 0] 10 1 [7, 0, 0, 0, 0, 0, 0, 0, 0, 0],
        Call_Recv 1 [7, 0, 0, 0, 0, 0, 0, 0, 0, 0] 10 1 [7, 0, 0, 0, 0, 0, 0, 0, 0, 0]]"
proof (intro conjI)
  have i: "prvInitializeTestData (replicate 10 0) 10 = Some (testPattern 10)"
    using prvInitializeTestData_whole[of "replicate 10 0"] by simp
  have run: "RunEchoTask 1 echoServer 10 (freshState 10 [])
     = Some (Returned True
        \<lparr>world = \<lparr>libState = [],
                  callLog =
                    [Call_Udp_Connect 0 ''PLACE_HOLDER'' 9000 5000 5000 0 1,
                     Call_Send 1 (testPattern 10) 10 10,
                     Call_Recv 1 (testPattern 10) 10 10 (testPattern 10),
                     Call_Disconnect 1]\<rparr>,
         xEchoTestBuffer = \<lparr>sendBuf = testPattern 10,
                            recvBuf = [0, 0, 0, 0, 0, 0, 0, 0, 0, 0]\<rparr>\<rparr>)"
    by (simp add: RunEchoTask_def freshState_def i testPattern_10
          prvTransportNetworkConnect_def Plaintext_FreeRTOS_UDP_Connect_def call_Sockets_Udp_Connect_def
          prvTransportNetworkDisconnect_def Plaintext_FreeRTOS_UDP_Disconnect_def call_Sockets_Disconnect_def
          ECHO_SERVER_ENDPOINT_def ECHO_SERVER_PORT_def ECHO_SEND_RECV_TIMEOUT_MS_def
          prvLoopSendAndReceive_def prvLoopSendAndReceive_body_def prvSendPackets_def
          Plaintext_FreeRTOS_sendTo_def Plaintext_FreeRTOS_recvFrom_def
          call_Sockets_Send_def call_Sockets_Recv_def store_bytes_def after_recv_def clear_recvBuf_def
          memset_def memcmp_equal_def ECHO_MAX_RETRY_COUNT_def echoServer_def)
  show "RunEchoTask 1 echoServer 10 (freshState 10 [])
     = Some (Returned True
        \<lparr>world = \<lparr>libState = [],
                  callLog =
                    [Call_Udp_Connect 0 ''PLACE_HOLDER'' 9000 5000 5000 0 1,
                     Call_Send 1 [0, 1, 2, 3, 4, 5, 6, 7, 8, 9] 10 10,
                     Call_Recv 1 [0, 1, 2, 3, 4, 5, 6, 7, 8, 9] 10 10 [0, 1, 2, 3, 4, 5, 6, 7, 8, 9],
                     Call_Disconnect 1]\<rparr>,
         xEchoTestBuffer = \<lparr>sendBuf = [0, 1, 2, 3, 4, 5, 6, 7, 8, 9],
                            recvBuf = [0, 0, 0, 0, 0, 0, 0, 0, 0, 0]\<rparr>\<rparr>)"
    unfolding run testPattern_10 ..
next
  show "callLog (world (outcome_state
        (prvLoopSendAndReceive 2 dribblingServer 10 connectedContext (freshState 10 0))))
     = [Call_Send 1 [0, 0, 0, 0, 0, 0, 0, 0, 0, 0] 10 10,
        Call_Recv 1 [0, 0, 0, 0, 0, 0, 0, 0, 0, 0] 10 1 [7, 0, 0, 0, 0, 0, 0, 0, 0, 0],
        Call_Recv 1 [7, 0, 0, 0, 0, 0, 0, 0, 0, 0] 10 1 [7, 0, 0, 0, 0, 0, 0, 0, 0, 0]]"
    by (simp add: run_defs dribblingServer_def replicate_10 numeral_2_eq_2)
qed

subsection \<open>The retry policy\<close>

text \<open>
  C2, as amended. One pass of the loop on a connected context, for a size \<open>n\<close> within
  \<^verbatim>\<open>ECHO_BUFFER_MAX_SIZE\<close> and a send that succeeds, is a send followed by receives
  for \<open>n\<close> bytes, all but the last of them partial (a positive count other than \<open>n\<close>):
  a partial receive is repeated at once and does not touch the failure counter. While
  the last one is partial too the pass has not ended. Otherwise the last receive
  returned \<open>n\<close>, or zero or an error, and decides how the loop goes on:
  \<^item> \<open>n\<close> bytes that compare equal to the send buffer: the next pass has size \<open>n + 1\<close>
    and failure counter 0;
  \<^item> \<open>n\<close> bytes that differ: the loop ends with failure;
  \<^item> zero or an error: the failure counter is incremented; the loop ends with failure
    when it then exceeds \<^verbatim>\<open>ECHO_MAX_RETRY_COUNT\<close>, and otherwise the next pass has the same
    size and the incremented counter.
\<close>

theorem C2_retry_policy:
  fixes s :: "'e EchoState"
  assumes "0 < n" and "n \<le> N"
      and "fst (Sockets_Send lib (socket prm) (sendBuf (xEchoTestBuffer s)) n (libState (world s))) = int n"
  shows "\<exists>revs b0 rc b'.
      new_calls s (outcome_state
          (prvLoopSendAndReceive_body fuel lib (Some \<lparr>pParams = Some prm\<rparr>) n failCount s))
        = Call_Send (socket prm) (sendBuf (xEchoTestBuffer s)) n (int n) # revs
    \<and> list_all (is_recv_of (socket prm) n) revs
    \<and> list_all is_partial_recv (butlast revs)
    \<and> (case outcome_result
               (prvLoopSendAndReceive_body fuel lib (Some \<lparr>pParams = Some prm\<rparr>) n failCount s) of
          None \<Rightarrow> length revs = fuel \<and> list_all is_partial_recv revs
        | Some ctl \<Rightarrow>
            revs \<noteq> [] \<and> last revs = Call_Recv (socket prm) b0 n rc b'
            \<and> (rc = int n \<or> rc \<le> 0)
            \<and> ctl = (if rc = int n
                     then (if take n (sendBuf (xEchoTestBuffer s)) = take n b'
                           then LoopNext (n + 1) 0 else LoopBreak False)
                     else if unat (failCount + 1) > ECHO_MAX_RETRY_COUNT
                          then LoopBreak False else LoopNext n (failCount + 1)))
    \<and> prvLoopSendAndReceive_for fuel lib N (Some \<lparr>pParams = Some prm\<rparr>) n failCount s
        = (case prvLoopSendAndReceive_body fuel lib (Some \<lparr>pParams = Some prm\<rparr>) n failCount s of
             Running st \<Rightarrow> Running st
           | Returned (LoopBreak result) st \<Rightarrow> Returned result st
           | Returned (LoopNext n' failCount') st \<Rightarrow>
               prvLoopSendAndReceive_for fuel lib N (Some \<lparr>pParams = Some prm\<rparr>) n' failCount' st)"
proof -
  let ?ctx = "Some \<lparr>pParams = Some prm\<rparr>"
  let ?sb = "sendBuf (xEchoTestBuffer s)"
  let ?body = "prvLoopSendAndReceive_body fuel lib ?ctx n failCount s"
  obtain rcS w1 where c0: "call_Sockets_Send lib (socket prm) ?sb n (world s) = (rcS, w1)"
    by (metis prod.exhaust)
  with assms(3) have "rcS = int n"
    by (auto simp: call_Sockets_Send_def split: prod.splits)
  with c0 have c: "call_Sockets_Send lib (socket prm) ?sb n (world s) = (int n, w1)" by simp
  from body_trace[OF assms(1) c, of fuel failCount] obtain revs s' where t:
    "outcome_state ?body = s'"
    "callLog (world s') = callLog (world s) @ Call_Send (socket prm) ?sb n (int n) # revs"
    "list_all (is_recv_of (socket prm) n) revs"
    "list_all is_partial_recv (butlast revs)"
    "(case ?body of
          Running st \<Rightarrow> length revs = fuel \<and> list_all is_partial_recv revs
        | Returned ctl st \<Rightarrow>
            (\<exists>b0 rc b'. revs \<noteq> [] \<and> last revs = Call_Recv (socket prm) b0 n rc b'
               \<and> (if rc = int n then
                     (if take n ?sb = take n b'
                      then ctl = LoopNext (n + 1) 0
                         \<and> recvBuf (xEchoTestBuffer s') = replicate (length (recvBuf (xEchoTestBuffer s))) 0
                      else ctl = LoopBreak False)
                   else rc \<le> 0
                      \<and> (if unat (failCount + 1) > ECHO_MAX_RETRY_COUNT then ctl = LoopBreak False
                          else ctl = LoopNext n (failCount + 1)
                             \<and> recvBuf (xEchoTestBuffer s') = replicate (length (recvBuf (xEchoTestBuffer s))) 0))))"
    by blast
  have nc: "new_calls s (outcome_state ?body) = Call_Send (socket prm) ?sb n (int n) # revs"
    using t(1,2) by (simp add: new_calls_def)
  have loop: "prvLoopSendAndReceive_for fuel lib N ?ctx n failCount s
        = (case ?body of
             Running st \<Rightarrow> Running st
           | Returned (LoopBreak result) st \<Rightarrow> Returned result st
           | Returned (LoopNext n' failCount') st \<Rightarrow>
               prvLoopSendAndReceive_for fuel lib N ?ctx n' failCount' st)"
    using assms(2) by (subst prvLoopSendAndReceive_for.simps) (simp del: prvLoopSendAndReceive_for.simps)
  show ?thesis
  proof (cases ?body)
    case (Running st)
    with t(5) have "length revs = fuel \<and> list_all is_partial_recv revs" by simp
    with nc t(3,4) loop Running show ?thesis
      by (intro exI[of _ revs]) (simp del: prvLoopSendAndReceive_for.simps)
  next
    case (Returned ctl st)
    with t(5) obtain b0 rc b' where l:
      "revs \<noteq> []" "last revs = Call_Recv (socket prm) b0 n rc b'"
      "if rc = int n then
         (if take n ?sb = take n b'
          then ctl = LoopNext (n + 1) 0
             \<and> recvBuf (xEchoTestBuffer s') = replicate (length (recvBuf (xEchoTestBuffer s))) 0
          else ctl = LoopBreak False)
       else rc \<le> 0
          \<and> (if unat (failCount + 1) > ECHO_MAX_RETRY_COUNT then ctl = LoopBreak False
              else ctl = LoopNext n (failCount + 1)
                 \<and> recvBuf (xEchoTestBuffer s') = replicate (length (recvBuf (xEchoTestBuffer s))) 0)"
      by auto
    have pol: "(rc = int n \<or> rc \<le> 0)
            \<and> ctl = (if rc = int n
                     then (if take n ?sb = take n b' then LoopNext (n + 1) 0 else LoopBreak False)
                     else if unat (failCount + 1) > ECHO_MAX_RETRY_COUNT
                          then LoopBreak False else LoopNext n (failCount + 1))"
      using l(3) by (auto split: if_splits)
    have res: "outcome_result ?body = Some ctl" using Returned by simp
    show ?thesis
      apply (rule exI[of _ revs], rule exI[of _ b0], rule exI[of _ rc], rule exI[of _ b'])
      apply (intro conjI)
          apply (rule nc)
         apply (rule t(3))
        apply (rule t(4))
       apply (simp only: res option.case l(1,2) pol not_False_eq_True simp_thms)
      apply (rule loop)
      done
  qed
qed

text \<open>
  C2 as stated fails: in a pass whose first receive returns 5 of the 10 bytes asked for
  and whose second returns 0, two receive attempts returned fewer bytes than requested or
  zero bytes, and the failure counter went from 0 to 1.
\<close>

theorem C2_counterexample:
  "prvLoopSendAndReceive_body 2 (lossyServer (\<lambda>k. if k = 0 then 5 else 0)) connectedContext 10 0
     (freshState 10 0)
   = Returned (LoopNext 10 1)
       \<lparr>world = \<lparr>libState = 2,
                 callLog = [Call_Send 1 (replicate 10 0) 10 10,
                            Call_Recv 1 (replicate 10 0) 10 5 (replicate 10 0),
                            Call_Recv 1 (replicate 10 0) 10 0 (replicate 10 0)]\<rparr>,
        xEchoTestBuffer = \<lparr>sendBuf = replicate 10 0, recvBuf = replicate 10 0\<rparr>\<rparr>"
  by (simp add: run_defs lossyServer_def numeral_2_eq_2)


text \<open>C2 on the same pass.\<close>

theorem C2_witness:
  "(0::nat) < 10 \<and> (10::nat) \<le> 10
   \<and> fst (Sockets_Send (lossyServer (\<lambda>k. if k = 0 then 5 else 0)) (socket \<lparr>socket = 1\<rparr>)
            (sendBuf (xEchoTestBuffer (freshState 10 (0::nat)))) 10 (libState (world (freshState 10 (0::nat))))) = int 10
   \<and> (\<exists>revs.
        new_calls (freshState 10 (0::nat)) (outcome_state
          (prvLoopSendAndReceive_body 2 (lossyServer (\<lambda>k. if k = 0 then 5 else 0))
             (Some \<lparr>pParams = Some \<lparr>socket = 1\<rparr>\<rparr>) 10 0 (freshState 10 (0::nat))))
          = Call_Send (socket \<lparr>socket = 1\<rparr>) (sendBuf (xEchoTestBuffer (freshState 10 (0::nat)))) 10 (int 10) # revs
      \<and> list_all (is_recv_of (socket \<lparr>socket = 1\<rparr>) 10) revs
      \<and> list_all is_partial_recv (butlast revs))"
proof -
  have h1: "(0::nat) < 10" by simp
  have h2: "(10::nat) \<le> 10" by simp
  have h3: "fst (Sockets_Send (lossyServer (\<lambda>k. if k = 0 then 5 else 0)) (socket \<lparr>socket = 1\<rparr>)
            (sendBuf (xEchoTestBuffer (freshState 10 (0::nat)))) 10 (libState (world (freshState 10 (0::nat))))) = int 10"
    by (simp add: lossyServer_def)
  from C2_retry_policy[OF h1 h2 h3, of 2 0] have
    "\<exists>revs.
        new_calls (freshState 10 (0::nat)) (outcome_state
          (prvLoopSendAndReceive_body 2 (lossyServer (\<lambda>k. if k = 0 then 5 else 0))
             (Some \<lparr>pParams = Some \<lparr>socket = 1\<rparr>\<rparr>) 10 0 (freshState 10 (0::nat))))
          = Call_Send (socket \<lparr>socket = 1\<rparr>) (sendBuf (xEchoTestBuffer (freshState 10 (0::nat)))) 10 (int 10) # revs
      \<and> list_all (is_recv_of (socket \<lparr>socket = 1\<rparr>) 10) revs
      \<and> list_all is_partial_recv (butlast revs)"
    by blast
  with h1 h2 h3 show ?thesis by (intro conjI)
qed

end
